theory Spec2Isabelle
  imports Main "HOL-Library.Sublist"
begin

section \<open>SillyTavern-Timelines: the interaction core of \<open>index.js\<close>\<close>

text \<open>
  A shallow embedding of \<open>src/index.js\<close>. Module-level variables
  (\<open>currentlyHighlighted\<close>, \<open>lastContext\<close>, \<open>layout\<close>, \<open>lastTimelineData\<close>,
  \<open>extension_settings.timeline\<close>) are fields of records that every handler takes and
  returns. Calls into the modules that \<open>index.js\<close> imports (\<open>tl_utils.js\<close>,
  \<open>tl_style.js\<close>, \<open>tl_graph.js\<close>, \<open>tl_node_data.js\<close>) and into jQuery, Cytoscape and
  the browser are either recorded, in order, as values of a call datatype, or taken as
  function parameters. \<open>console.log\<close> output is not modelled; \<open>console.error\<close> is.
\<close>

subsection \<open>JavaScript values\<close>

text \<open>
  The values that settings and context identifiers take. Numbers are integers here (all
  defaults of the source are). Strict equality \<open>===\<close> on these values is HOL equality.
\<close>

datatype jsval = JUndefined | JNull | JBool bool | JNum int | JStr string

fun truthy :: "jsval \<Rightarrow> bool" where
  "truthy JUndefined = False"
| "truthy JNull = False"
| "truthy (JBool b) = b"
| "truthy (JNum n) = (n \<noteq> 0)"
| "truthy (JStr s) = (s \<noteq> [])"

subsection \<open>Settings\<close>

type_synonym settings = "string \<rightharpoonup> jsval"

text \<open>\<open>let defaultSettings = { ... }\<close>, in the order of \<open>Object.entries\<close>.\<close>

definition defaultSettings :: "(string \<times> jsval) list" where
  "defaultSettings =
    [(''nodeWidth'', JNum 25),
     (''nodeHeight'', JNum 25),
     (''nodeSeparation'', JNum 50),
     (''edgeSeparation'', JNum 10),
     (''rankSeparation'', JNum 50),
     (''spacingFactor'', JNum 1),
     (''nodeShape'', JStr ''ellipse''),
     (''curveStyle'', JStr ''taxi''),
     (''avatarAsRoot'', JBool True),
     (''bookmarkColor'', JStr ''#ff0000''),
     (''useChatColors'', JBool False),
     (''charNodeColor'', JStr ''#FFFFFF''),
     (''userNodeColor'', JStr ''#ADD8E6''),
     (''edgeColor'', JStr ''#555''),
     (''lockNodes'', JBool True)]"

text \<open>\<open>obj.hasOwnProperty(key)\<close>: the key is present, whatever its value.\<close>

definition hasOwnProperty :: "settings \<Rightarrow> string \<Rightarrow> bool" where
  "hasOwnProperty t key = (case t key of None \<Rightarrow> False | Some v \<Rightarrow> True)"

text \<open>Reading a property: a missing key reads as \<open>undefined\<close>.\<close>

definition getProp :: "settings \<Rightarrow> string \<Rightarrow> jsval" where
  "getProp t key = (case t key of None \<Rightarrow> JUndefined | Some v \<Rightarrow> v)"

text \<open>One round of the loop \<open>for (const [key, value] of Object.entries(defaultSettings))\<close>.\<close>

definition mergeDefault :: "string \<times> jsval \<Rightarrow> settings \<Rightarrow> settings" where
  "mergeDefault kv t =
     (if \<not> hasOwnProperty t (fst kv) then t(fst kv \<mapsto> snd kv) else t)"

text \<open>
  The first part of \<open>loadSettings\<close> (lines 98-110): \<open>extension_settings.timeline\<close> is
  created empty when it is missing (\<open>None\<close>), then the loop over the defaults runs.
\<close>

definition ensureTimeline :: "settings option \<Rightarrow> settings" where
  "ensureTimeline timeline0 = (case timeline0 of None \<Rightarrow> Map.empty | Some t \<Rightarrow> t)"

definition mergeDefaults :: "settings option \<Rightarrow> settings" where
  "mergeDefaults timeline0 = fold mergeDefault defaultSettings (ensureTimeline timeline0)"

subsection \<open>Graph elements and the Cytoscape instance\<close>

text \<open>
  The data of a node and of an edge, as the handlers read them with \<open>node.data(...)\<close>
  and \<open>edge.data(...)\<close>; \<open>None\<close> is a field that is \<open>undefined\<close>.
  \<open>background_color\<close> is what \<open>node.style('background-color')\<close> returns.
\<close>

record node =
  node_id :: string
  name :: "string option"
  msg :: "string option"
  chat_sessions :: "string list option"
  file_name :: "string option"
  background_color :: string

record edge =
  source :: string
  target :: string
  color :: "string option"
  bookmarkName :: "string option"

text \<open>An entry of the \<open>nodeData\<close> array: \<open>{ group: 'nodes' | 'edges', data: ... }\<close>.\<close>

datatype elem = NodeElem node | EdgeElem edge

text \<open>
  The styling primitives of \<open>tl_style.js\<close> and \<open>tl_graph.js\<close> that \<open>index.js\<close> calls on
  a Cytoscape instance. The instance keeps the calls made on it, oldest first.
\<close>

datatype style_call =
  HighlightElements string
| RestoreElements
| HighlightNodesByQuery string

record cy =
  nodes :: "node list"
  edges :: "edge list"
  styleCalls :: "style_call list"

definition highlightElements :: "cy \<Rightarrow> string \<Rightarrow> cy" where
  "highlightElements c sel = c\<lparr>styleCalls := styleCalls c @ [HighlightElements sel]\<rparr>"

definition restoreElements :: "cy \<Rightarrow> cy" where
  "restoreElements c = c\<lparr>styleCalls := styleCalls c @ [RestoreElements]\<rparr>"

definition highlightNodesByQuery :: "cy \<Rightarrow> string \<Rightarrow> cy" where
  "highlightNodesByQuery c query = c\<lparr>styleCalls := styleCalls c @ [HighlightNodesByQuery query]\<rparr>"

subsection \<open>Legend items\<close>

text \<open>
  A legend row as \<open>createLegendItem\<close> builds it: the selector its three listeners
  close over, the style of its symbol, the text shown (\<open>legendText.innerText\<close>) and
  whether it carries the class \<open>active-legend\<close>.
\<close>

datatype symbol_style = BackgroundColor string | BorderTop3pxSolid string | NoSymbolStyle

record legend_item =
  selector :: string
  symbol :: symbol_style
  legendText :: string
  active :: bool

text \<open>The \<open>item\<close> argument of \<open>createLegendItem\<close>: \<open>{ color, text, colorKey }\<close>.\<close>

record legend_arg =
  item_color :: string
  item_text :: string
  item_colorKey :: "string option"

text \<open>\<open>s.split(' - ')[0]\<close>: the part of \<open>s\<close> before the first \<open>' - '\<close>, all of it if there is none.\<close>

fun splitFirst :: "string \<Rightarrow> string" where
  "splitFirst [] = []"
| "splitFirst (c # cs) = (if prefix '' - '' (c # cs) then [] else c # splitFirst cs)"

text \<open>A template literal prints an \<open>undefined\<close> value as the word \<open>undefined\<close>.\<close>

definition templateStr :: "string option \<Rightarrow> string" where
  "templateStr v = (case v of None \<Rightarrow> ''undefined'' | Some s \<Rightarrow> s)"

definition nodeSelector :: "string \<Rightarrow> string" where
  "nodeSelector t = ''node[name=\"'' @ t @ ''\"]''"

definition edgeSelector :: "string \<Rightarrow> string" where
  "edgeSelector k = ''edge[color=\"'' @ k @ ''\"]''"

definition createLegendItem :: "legend_arg \<Rightarrow> string \<Rightarrow> legend_item" where
  "createLegendItem item type =
     \<lparr>selector = (if type = ''circle'' then nodeSelector (item_text item)
                   else edgeSelector (templateStr (item_colorKey item))),
      symbol = (if type = ''circle'' then BackgroundColor (item_color item)
                else if type = ''line'' then BorderTop3pxSolid (item_color item)
                else NoSymbolStyle),
      legendText = splitFirst (item_text item),
      active = False\<rparr>"

text \<open>
  The two \<open>forEach\<close> loops of \<open>createLegend\<close>. The accumulator is the set
  \<open>nodeNames\<close> (the map \<open>edgeColors\<close>) and the rows appended to the container so far.
  \<open>name && ...\<close> and \<open>color && ...\<close> reject \<open>undefined\<close> and the empty string;
  \<open>bookmarkName || ...\<close> replaces both by the synthesized label.
\<close>

fun nodesLegend :: "node list \<Rightarrow> string set \<times> legend_item list \<Rightarrow> string set \<times> legend_item list" where
  "nodesLegend [] acc = acc"
| "nodesLegend (n # ns) (nodeNames, container) =
     (case name n of
        None \<Rightarrow> nodesLegend ns (nodeNames, container)
      | Some nm \<Rightarrow>
          if nm \<noteq> [] \<and> nm \<notin> nodeNames then
            nodesLegend ns
              (insert nm nodeNames,
               container @ [createLegendItem
                 \<lparr>item_color = background_color n, item_text = nm, item_colorKey = None\<rparr> ''circle''])
          else nodesLegend ns (nodeNames, container))"

definition edgeLabel :: "string option \<Rightarrow> string \<Rightarrow> string" where
  "edgeLabel bookmark c =
     (case bookmark of
        None \<Rightarrow> ''Path of '' @ c
      | Some b \<Rightarrow> if b \<noteq> [] then b else ''Path of '' @ c)"

fun edgesLegend :: "edge list \<Rightarrow> (string \<rightharpoonup> string option) \<times> legend_item list
    \<Rightarrow> (string \<rightharpoonup> string option) \<times> legend_item list" where
  "edgesLegend [] acc = acc"
| "edgesLegend (e # es) (edgeColors, container) =
     (case color e of
        None \<Rightarrow> edgesLegend es (edgeColors, container)
      | Some c \<Rightarrow>
          if c \<noteq> [] \<and> edgeColors c = None then
            edgesLegend es
              (edgeColors(c \<mapsto> bookmarkName e),
               container @ [createLegendItem
                 \<lparr>item_color = c, item_text = edgeLabel (bookmarkName e) c, item_colorKey = Some c\<rparr>
                 ''line''])
          else edgesLegend es (edgeColors, container))"

text \<open>
  \<open>createLegend(cy)\<close>: the second argument is the content of \<open>legendDiv\<close> before the
  call, which \<open>legendContainer.innerHTML = ''\<close> throws away.
\<close>

definition createLegend :: "cy \<Rightarrow> legend_item list \<Rightarrow> legend_item list" where
  "createLegend c legendContainer =
     (let cleared = [];
          afterNodes = snd (nodesLegend (nodes c) ({}, cleared))
      in snd (edgesLegend (edges c) (Map.empty, afterNodes)))"

subsection \<open>The state the handlers share\<close>

text \<open>
  \<open>getContext()\<close> of the host: the fields \<open>updateTimelineDataIfNeeded\<close> reads.
  \<open>characters\<close> is indexed by \<open>characterId\<close>.
\<close>

record chat_group =
  group_id :: jsval
  chats :: "string list"

record app_context =
  characterId :: jsval
  groupId :: jsval
  groups :: "chat_group list"
  characters :: "jsval \<rightharpoonup> string"

text \<open>The dagre layout object built by \<open>updateTimelineDataIfNeeded\<close> (\<open>minLen\<close> is constantly 1).\<close>

record layout_options =
  layout_name :: string
  nodeDimensionsIncludeLabels :: bool
  nodeSep :: jsval
  edgeSep :: jsval
  rankSep :: jsval
  rankDir :: string
  spacingFactor :: jsval

text \<open>
  The module-level variables of \<open>index.js\<close>, \<open>extension_settings.timeline\<close> once
  \<open>loadSettings\<close> has run, and what the current render produced: the Cytoscape instance
  \<open>cy\<close> its listeners close over and the rows of \<open>legendDiv\<close>. \<open>layout = {}\<close> is \<open>None\<close>.
\<close>

record state =
  currentlyHighlighted :: "string option"
  lastContext :: "app_context option"
  layout :: "layout_options option"
  lastTimelineData :: "elem list option"
  timeline :: settings
  graph :: cy
  legendDiv :: "legend_item list"

subsection \<open>Node click\<close>

text \<open>Calls into \<open>tl_utils.js\<close>, in the order made.\<close>

datatype util_call =
  NavigateToMessage "string option" nat
| CloseModal
| CloseOpenDrawers
| HandleModalDisplay

text \<open>
  \<open>nodeClickHandler(node)\<close>; \<open>getNodeDepth\<close> (of \<open>tl_graph.js\<close>) is a parameter.
  \<open>chatSessions && chatSessions.length > 1\<close> is false for \<open>undefined\<close>.
\<close>

definition nodeClickHandler :: "(node \<Rightarrow> nat) \<Rightarrow> node \<Rightarrow> util_call list" where
  "nodeClickHandler getNodeDepth n =
     (let depth = getNodeDepth n;
          chatSessions = chat_sessions n
      in if \<not> (case chatSessions of None \<Rightarrow> False | Some cs \<Rightarrow> length cs > 1)
         then (let chatSessionName = file_name n in [NavigateToMessage chatSessionName depth])
         else [])"

text \<open>The listener \<open>cy.on('tap', 'node', ...)\<close>.\<close>

definition onNodeTap :: "(node \<Rightarrow> nat) \<Rightarrow> node \<Rightarrow> util_call list" where
  "onNodeTap getNodeDepth n = nodeClickHandler getNodeDepth n @ [CloseModal]"

subsection \<open>Legend listeners\<close>

text \<open>
  The three listeners \<open>createLegendItem\<close> attaches to a row. The row is given by its
  position \<open>i\<close> in \<open>legendDiv\<close>; an event on a row that does not exist runs no listener.
\<close>

definition onLegendMouseover :: "nat \<Rightarrow> state \<Rightarrow> state" where
  "onLegendMouseover i s =
     (if i < length (legendDiv s) then
        (let legendItem = legendDiv s ! i in
         if \<not> active legendItem \<and> currentlyHighlighted s \<noteq> Some (selector legendItem)
         then s\<lparr>graph := highlightElements (graph s) (selector legendItem)\<rparr>
         else s)
      else s)"

definition onLegendMouseout :: "nat \<Rightarrow> state \<Rightarrow> state" where
  "onLegendMouseout i s =
     (if i < length (legendDiv s) then
        (let legendItem = legendDiv s ! i in
         if \<not> active legendItem \<and> currentlyHighlighted s \<noteq> Some (selector legendItem)
         then s\<lparr>graph := restoreElements (graph s)\<rparr>
         else s)
      else s)"

text \<open>\<open>document.querySelectorAll('.active-legend').forEach(item => item.classList.remove(...))\<close>.\<close>

definition removeAllActive :: "legend_item list \<Rightarrow> legend_item list" where
  "removeAllActive items = map (\<lambda>it. it\<lparr>active := False\<rparr>) items"

definition onLegendClick :: "nat \<Rightarrow> state \<Rightarrow> state" where
  "onLegendClick i s =
     (if i < length (legendDiv s) then
        (let legendItem = legendDiv s ! i in
         if currentlyHighlighted s = Some (selector legendItem) then
           s\<lparr>graph := restoreElements (graph s),
             legendDiv := (legendDiv s)[i := legendItem\<lparr>active := False\<rparr>],
             currentlyHighlighted := None\<rparr>
         else
           (let s1 = (if currentlyHighlighted s \<noteq> None
                      then s\<lparr>graph := restoreElements (graph s),
                             legendDiv := removeAllActive (legendDiv s)\<rparr>
                      else s)
            in s1\<lparr>graph := highlightElements (graph s1) (selector legendItem),
                  legendDiv := (legendDiv s1)[i := (legendDiv s1 ! i)\<lparr>active := True\<rparr>],
                  currentlyHighlighted := Some (selector legendItem)\<rparr>))
      else s)"

datatype legend_event = Mouseover nat | Mouseout nat | Click nat

fun legendStep :: "state \<Rightarrow> legend_event \<Rightarrow> state" where
  "legendStep s (Mouseover i) = onLegendMouseover i s"
| "legendStep s (Mouseout i) = onLegendMouseout i s"
| "legendStep s (Click i) = onLegendClick i s"

definition legendRun :: "legend_event list \<Rightarrow> state \<Rightarrow> state" where
  "legendRun evs s = foldl legendStep s evs"

text \<open>\<open>cy.ready(function () { createLegend(cy); closeOpenDrawers(); })\<close>.\<close>

definition onReady :: "state \<Rightarrow> util_call list \<times> state" where
  "onReady s = ([CloseOpenDrawers], s\<lparr>legendDiv := createLegend (graph s) (legendDiv s)\<rparr>)"

subsection \<open>Rendering\<close>

text \<open>
  \<open>initializeCytoscape(nodeData, styles)\<close>. The first argument says whether
  \<open>document.getElementById('myDiagramDiv')\<close> finds the element. The result is what was
  written with \<open>console.error\<close>, the plugins registered with \<open>cytoscape.use\<close>, and the
  options the instance was constructed from (\<open>None\<close> is the returned \<open>null\<close>).
  The stylesheet type is that of \<open>setupStylesAndData\<close> (of \<open>tl_style.js\<close>), a parameter.
\<close>

record 'st cytoscape_options =
  elements :: "elem list"
  style :: 'st
  cy_layout :: "layout_options option"

definition missingContainerMessage :: string where
  "missingContainerMessage =
     ''Unable to find element with id \"myDiagramDiv\". Please ensure the element exists at the time of calling this function.''"

definition initializeCytoscape ::
    "bool \<Rightarrow> elem list \<Rightarrow> 'st \<Rightarrow> state \<Rightarrow> string list \<times> string list \<times> 'st cytoscape_options option" where
  "initializeCytoscape myDiagramDiv nodeData styles s =
     (if \<not> myDiagramDiv then ([missingContainerMessage], [], None)
      else ([], [''cytoscapeDagre'', ''cytoscapeContextMenus'', ''cytoscapePopper''],
            Some \<lparr>elements = nodeData, style = styles, cy_layout = layout s\<rparr>))"

text \<open>The context menu entries and the listeners that \<open>setupEventHandlers\<close> installs.\<close>

datatype menu_action = OpenChatSession string | NoChatSessions | RotateGraph

record menu_item =
  menu_id :: string
  content :: string
  menu_selector :: string
  onClickFunction :: menu_action
  coreAsWell :: bool

datatype listener =
  SearchInput
| ContextMenus "menu_item list"
| CyReady
| CyOn string string

text \<open>\<open>[...new Set(xs)]\<close>: the first occurrence of each value, in order.\<close>

fun uniqueInOrder :: "'a list \<Rightarrow> 'a list" where
  "uniqueInOrder [] = []"
| "uniqueInOrder (x # xs) = x # uniqueInOrder (filter (\<lambda>y. y \<noteq> x) xs)"

fun sessionsOf :: "elem \<Rightarrow> string list" where
  "sessionsOf (NodeElem n) = (case chat_sessions n of None \<Rightarrow> [] | Some cs \<Rightarrow> cs)"
| "sessionsOf (EdgeElem e) = []"

text \<open>Decimal digits of an array index, for \<open>'chat-session-' + index\<close>.\<close>

fun digits :: "nat \<Rightarrow> nat \<Rightarrow> string" where
  "digits 0 n = []"
| "digits (Suc fuel) n =
     (if n < 10 then [char_of (48 + n)]
      else digits fuel (n div 10) @ [char_of (48 + n mod 10)])"

definition indexStr :: "nat \<Rightarrow> string" where
  "indexStr n = digits (Suc n) n"

definition sessionMenuItem :: "nat \<times> string \<Rightarrow> menu_item" where
  "sessionMenuItem p =
     \<lparr>menu_id = ''chat-session-'' @ indexStr (fst p),
      content = ''Open chat session '' @ snd p,
      menu_selector = ''node[chat_sessions_str *= \";'' @ snd p @ '';\"]'',
      onClickFunction = OpenChatSession (snd p),
      coreAsWell = False\<rparr>"

definition menuItems :: "elem list \<Rightarrow> menu_item list" where
  "menuItems nodeData =
     (let allChatSessions = uniqueInOrder (concat (map sessionsOf nodeData))
      in map sessionMenuItem (enumerate 0 allChatSessions)
         @ [\<lparr>menu_id = ''no-chat-session'', content = ''No chat sessions available'',
              menu_selector = ''node[!chat_sessions_str]'', onClickFunction = NoChatSessions,
              coreAsWell = False\<rparr>,
            \<lparr>menu_id = ''rotate-graph'', content = ''Rotate Graph'',
              menu_selector = ''core'', onClickFunction = RotateGraph,
              coreAsWell = True\<rparr>])"

definition setupEventHandlers :: "elem list \<Rightarrow> listener list" where
  "setupEventHandlers nodeData =
     [SearchInput,
      ContextMenus (menuItems nodeData),
      CyReady,
      CyOn ''tap'' ''node'',
      CyOn ''render'' [],
      CyOn ''mouseover'' ''node'',
      CyOn ''mouseout'' ''node'']"

text \<open>
  \<open>renderCytoscapeDiagram(nodeData)\<close>: what one call leaves behind. \<open>diagram\<close> is the
  diagram constructed, \<open>listeners\<close> the handlers attached.
\<close>

record 'st rendering =
  consoleError :: "string list"
  plugins :: "string list"
  diagram :: "'st cytoscape_options option"
  listeners :: "listener list"

definition renderCytoscapeDiagram ::
    "(elem list \<Rightarrow> 'st) \<Rightarrow> bool \<Rightarrow> elem list \<Rightarrow> state \<Rightarrow> 'st rendering" where
  "renderCytoscapeDiagram setupStylesAndData myDiagramDiv nodeData s =
     (let styles = setupStylesAndData nodeData;
          (errs, used, c) = initializeCytoscape myDiagramDiv nodeData styles s
      in \<lparr>consoleError = errs, plugins = used, diagram = c,
           listeners = (case c of None \<Rightarrow> [] | Some opts \<Rightarrow> setupEventHandlers nodeData)\<rparr>)"

subsection \<open>Search\<close>

text \<open>\<open>String.prototype.toLowerCase\<close> on the ASCII letters.\<close>

definition lowerChar :: "char \<Rightarrow> char" where
  "lowerChar c =
     (let n = (of_char c :: nat) in if 65 \<le> n \<and> n \<le> 90 then char_of (n + 32) else c)"

definition toLowerCase :: "string \<Rightarrow> string" where
  "toLowerCase str = map lowerChar str"

text \<open>
  The \<open>input\<close> listener of \<open>transparent-search\<close>; the argument is \<open>e.target.value\<close>.
  Writing it back to the same field changes nothing.
\<close>

definition onSearchInput :: "string \<Rightarrow> state \<Rightarrow> state" where
  "onSearchInput v s =
     (let query = toLowerCase v
      in s\<lparr>graph := highlightNodesByQuery (graph s) query\<rparr>)"

text \<open>
  Modelled from the spec: \<open>highlightNodesByQuery\<close> (\<open>tl_graph.js\<close>), \<open>highlightElements\<close>
  and \<open>restoreElements\<close> (\<open>tl_style.js\<close>) are not among the sources. The spec says of
  them: a search "highlights all nodes whose name or message text contains the query
  (case-insensitive substring match); an empty query clears highlighting"; highlighting
  is by selector; "restoring when nothing is highlighted is a no-op"; the highlight is a
  single slot where the last writer wins. \<open>visual\<close> is what is highlighted after the
  calls made on an instance: \<open>None\<close> when nothing is, else the highlighted nodes and edges.
\<close>

definition fieldText :: "string option \<Rightarrow> string" where
  "fieldText v = (case v of None \<Rightarrow> [] | Some t \<Rightarrow> t)"

definition queryMatches :: "string \<Rightarrow> node \<Rightarrow> bool" where
  "queryMatches query n =
     (sublist (toLowerCase query) (toLowerCase (fieldText (name n)))
      \<or> sublist (toLowerCase query) (toLowerCase (fieldText (msg n))))"

definition nodeMatches :: "string \<Rightarrow> node \<Rightarrow> bool" where
  "nodeMatches sel n = (case name n of None \<Rightarrow> False | Some nm \<Rightarrow> sel = nodeSelector nm)"

definition edgeMatches :: "string \<Rightarrow> edge \<Rightarrow> bool" where
  "edgeMatches sel e = (case color e of None \<Rightarrow> False | Some c \<Rightarrow> sel = edgeSelector c)"

fun applyStyleCall :: "cy \<Rightarrow> (node list \<times> edge list) option \<Rightarrow> style_call
    \<Rightarrow> (node list \<times> edge list) option" where
  "applyStyleCall c v RestoreElements = None"
| "applyStyleCall c v (HighlightElements sel) =
     Some (filter (nodeMatches sel) (nodes c), filter (edgeMatches sel) (edges c))"
| "applyStyleCall c v (HighlightNodesByQuery query) =
     (if query = [] then None else Some (filter (queryMatches query) (nodes c), []))"

definition visual :: "cy \<Rightarrow> (node list \<times> edge list) option" where
  "visual c = foldl (applyStyleCall c) None (styleCalls c)"

subsection \<open>Hover tooltips\<close>

text \<open>
  The listeners \<open>cy.on('mouseover', 'node', ...)\<close> and \<open>cy.on('mouseout', 'node', ...)\<close>
  with the variable \<open>showTimeout\<close> they share, and the browser's timers:
  \<open>setTimeout\<close> hands out handles 1, 2, 3, ... and keeps the pending callbacks;
  \<open>TimerFires h\<close> is the moment the delay of handle \<open>h\<close> has elapsed. A callback that
  runs shows a tooltip (\<open>makeTippy\<close>, \<open>tippy.show()\<close>) and stores it in \<open>node._tippy\<close>.
\<close>

definition truncateMessage :: "string option \<Rightarrow> nat \<Rightarrow> string" where
  "truncateMessage m len =
     (case m of
        None \<Rightarrow> []
      | Some t \<Rightarrow> if length t > len then take (len - 3) t @ ''...'' else t)"

definition tooltipContent :: "node \<Rightarrow> string" where
  "tooltipContent n =
     (let truncatedMsg = truncateMessage (msg n) 100
      in case name n of
           None \<Rightarrow> truncatedMsg
         | Some nm \<Rightarrow> if nm \<noteq> [] then nm @ '': '' @ truncatedMsg else truncatedMsg)"

record tippy =
  tip_content :: string
  visible :: bool

record hover_state =
  showTimeout :: "nat option"
  timersCreated :: nat
  pendingTimers :: "(nat \<times> node) list"
  node_tippy :: "string \<rightharpoonup> tippy"
  appeared :: "(nat \<times> string) list"

datatype hover_event = MouseoverNode node | MouseoutNode node | TimerFires nat

definition setTimeout :: "node \<Rightarrow> hover_state \<Rightarrow> nat \<times> hover_state" where
  "setTimeout n h =
     (let handle = Suc (timersCreated h)
      in (handle, h\<lparr>timersCreated := handle, pendingTimers := pendingTimers h @ [(handle, n)]\<rparr>))"

definition clearTimeout :: "nat \<Rightarrow> hover_state \<Rightarrow> hover_state" where
  "clearTimeout handle h = h\<lparr>pendingTimers := filter (\<lambda>p. fst p \<noteq> handle) (pendingTimers h)\<rparr>"

definition onNodeMouseover :: "node \<Rightarrow> hover_state \<Rightarrow> hover_state" where
  "onNodeMouseover n h =
     (let (handle, h1) = setTimeout n h in h1\<lparr>showTimeout := Some handle\<rparr>)"

definition onNodeMouseout :: "node \<Rightarrow> hover_state \<Rightarrow> hover_state" where
  "onNodeMouseout n h =
     (let h1 = (case showTimeout h of
                  None \<Rightarrow> h
                | Some handle \<Rightarrow> if handle \<noteq> 0 then clearTimeout handle h else h)
      in case node_tippy h1 (node_id n) of
           None \<Rightarrow> h1
         | Some t \<Rightarrow> h1\<lparr>node_tippy := (node_tippy h1)(node_id n \<mapsto> t\<lparr>visible := False\<rparr>)\<rparr>)"

definition onTimerFires :: "nat \<Rightarrow> hover_state \<Rightarrow> hover_state" where
  "onTimerFires handle h =
     (case map_of (pendingTimers h) handle of
        None \<Rightarrow> h
      | Some n \<Rightarrow>
          (clearTimeout handle h)
            \<lparr>node_tippy := (node_tippy h)(node_id n \<mapsto> \<lparr>tip_content = tooltipContent n, visible = True\<rparr>),
             appeared := appeared h @ [(handle, node_id n)]\<rparr>)"

fun hoverStep :: "hover_state \<Rightarrow> hover_event \<Rightarrow> hover_state" where
  "hoverStep h (MouseoverNode n) = onNodeMouseover n h"
| "hoverStep h (MouseoutNode n) = onNodeMouseout n h"
| "hoverStep h (TimerFires handle) = onTimerFires handle h"

definition hoverRun :: "hover_event list \<Rightarrow> hover_state \<Rightarrow> hover_state" where
  "hoverRun evs h = foldl hoverStep h evs"

fun isMouseover :: "hover_event \<Rightarrow> bool" where
  "isMouseover (MouseoverNode n) = True"
| "isMouseover (MouseoutNode n) = False"
| "isMouseover (TimerFires handle) = False"

subsection \<open>Rebuild decision and settings change\<close>

text \<open>
  The data collaborators of \<open>tl_node_data.js\<close>, as parameters: \<open>fetchData(avatar)\<close>, and
  \<open>prepareData(data, isGroupChat)\<close>, whose first argument is either what \<open>fetchData\<close>
  returned or the dictionary \<open>{ i: { file_name: group.chats[i] } }\<close> built for a group.
\<close>

datatype 'raw chat_data = Fetched 'raw | GroupFiles "(nat \<times> string) list"

record 'raw collaborators =
  fetchData :: "string \<Rightarrow> 'raw"
  prepareData :: "'raw chat_data \<Rightarrow> bool \<Rightarrow> elem list"

datatype error = TypeError

definition dagreLayout :: "settings \<Rightarrow> layout_options" where
  "dagreLayout t =
     \<lparr>layout_name = ''dagre'',
      nodeDimensionsIncludeLabels = True,
      nodeSep = getProp t ''nodeSeparation'',
      edgeSep = getProp t ''edgeSeparation'',
      rankSep = getProp t ''rankSeparation'',
      rankDir = ''LR'',
      spacingFactor = getProp t ''spacingFactor''\<rparr>"

text \<open>
  \<open>updateTimelineDataIfNeeded()\<close>; the second argument is what \<open>getContext()\<close> returns.
  Reading \<open>.chats\<close> of a group that \<open>find\<close> did not find, or \<open>.avatar\<close> of a character
  that is not in \<open>context.characters\<close>, throws; the variables are then as they were.
\<close>

definition timelineUpdated :: "app_context \<Rightarrow> state \<Rightarrow> (error + bool) \<times> state" where
  "timelineUpdated context s =
     (Inr True, s\<lparr>lastContext := Some context, layout := Some (dagreLayout (timeline s))\<rparr>)"

definition updateTimelineDataIfNeeded ::
    "'raw collaborators \<Rightarrow> app_context \<Rightarrow> state \<Rightarrow> (error + bool) \<times> state" where
  "updateTimelineDataIfNeeded env context s =
     (if (case lastContext s of
            None \<Rightarrow> True
          | Some lc \<Rightarrow> characterId lc \<noteq> characterId context) then
        (if \<not> truthy (characterId context) then
           (let groupID = groupId context in
            if truthy groupID then
              (case find (\<lambda>g. group_id g = groupID) (groups context) of
                 None \<Rightarrow> (Inl TypeError, s)
               | Some g \<Rightarrow>
                   timelineUpdated context
                     (s\<lparr>lastTimelineData :=
                          Some (prepareData env (GroupFiles (enumerate 0 (chats g))) True)\<rparr>))
            else timelineUpdated context s)
         else
           (case characters context (characterId context) of
              None \<Rightarrow> (Inl TypeError, s)
            | Some avatar \<Rightarrow>
                timelineUpdated context
                  (s\<lparr>lastTimelineData :=
                       Some (prepareData env (Fetched (fetchData env avatar)) False)\<rparr>)))
      else (Inr False, s))"

text \<open>
  \<open>onInputChange(element, settingName, rgbaValue)\<close>. The element is what jQuery reports
  of it: \<open>.is(":checkbox")\<close>, \<open>.is("toolcool-color-picker")\<close>, \<open>.prop("checked")\<close>,
  \<open>.val()\<close> and its id. The parameter \<open>num\<close> is \<open>Math.round(Number(str))\<close> of a string,
  \<open>None\<close> when \<open>isNaN(str)\<close>.
\<close>

datatype element_kind = Checkbox | ColorPicker | OtherInput

record element =
  element_id :: string
  kind :: element_kind
  checked :: bool
  val :: jsval

datatype panel_call = SetLabelText string int | SaveSettingsDebounced

fun roundedNumber :: "(string \<Rightarrow> int option) \<Rightarrow> jsval \<Rightarrow> int option" where
  "roundedNumber num JUndefined = None"
| "roundedNumber num JNull = Some 0"
| "roundedNumber num (JBool b) = Some (if b then 1 else 0)"
| "roundedNumber num (JNum n) = Some n"
| "roundedNumber num (JStr str) = num str"

definition onInputChange ::
    "(string \<Rightarrow> int option) \<Rightarrow> element \<Rightarrow> string \<Rightarrow> jsval \<Rightarrow> state \<Rightarrow> panel_call list \<times> state" where
  "onInputChange num el settingName rgbaValue s =
     (let v = (if kind el = Checkbox then JBool (checked el)
               else if kind el = ColorPicker then rgbaValue
               else val el);
          label = (case roundedNumber num v of
                     None \<Rightarrow> []
                   | Some r \<Rightarrow> [SetLabelText (element_id el @ ''_value'') r])
      in (label @ [SaveSettingsDebounced],
          s\<lparr>timeline := (timeline s)(settingName \<mapsto> v), lastContext := None\<rparr>))"

subsection \<open>Loading the settings\<close>

text \<open>
  \<open>idsToSettingsMap\<close> of the start-up code, and the listeners bound from it (lines
  592-602): a control whose id contains \<open>color-picker\<close> gets a \<open>change\<close> listener, every
  other control an \<open>input\<close> listener that calls \<open>onInputChange($(this), settingName)\<close>.
  \<open>onInputEvent\<close> is what an \<open>input\<close> event on the control with the given id runs. The
  listeners are bound before \<open>loadSettings\<close> is first called.
\<close>

definition idsToSettingsMap :: "(string \<times> string) list" where
  "idsToSettingsMap =
    [(''tl_node_width'', ''nodeWidth''),
     (''tl_node_height'', ''nodeHeight''),
     (''tl_node_separation'', ''nodeSeparation''),
     (''tl_edge_separation'', ''edgeSeparation''),
     (''tl_rank_separation'', ''rankSeparation''),
     (''tl_spacing_factor'', ''spacingFactor''),
     (''tl_node_shape'', ''nodeShape''),
     (''tl_curve_style'', ''curveStyle''),
     (''tl_avatar_as_root'', ''avatarAsRoot''),
     (''tl_use_chat_colors'', ''useChatColors''),
     (''tl_lock_nodes'', ''lockNodes''),
     (''bookmark-color-picker'', ''bookmarkColor''),
     (''edge-color-picker'', ''edgeColor''),
     (''user-node-color-picker'', ''userNodeColor''),
     (''char-node-color-picker'', ''charNodeColor'')]"

definition onInputEvent ::
    "(string \<Rightarrow> int option) \<Rightarrow> string \<Rightarrow> element \<Rightarrow> state \<Rightarrow> panel_call list \<times> state" where
  "onInputEvent num ident el s =
     (case map_of idsToSettingsMap ident of
        None \<Rightarrow> ([], s)
      | Some settingName \<Rightarrow>
          if sublist ''color-picker'' ident then ([], s)
          else onInputChange num el settingName JNull s)"

text \<open>
  The settings panel: the controls in the document, by id. \<open>$("#id")\<close> of an id that is
  not there is an empty collection: setting a value on it and triggering an event on
  it do nothing.
\<close>

type_synonym panel = "string \<rightharpoonup> element"

text \<open>
  The second part of \<open>loadSettings\<close> (lines 113-127). \<open>$("#id").val(v).trigger("input")\<close>
  and \<open>$("#id").prop("checked", v).trigger("input")\<close> set the control and run its
  \<open>input\<close> listener at once, which stores what the control then reports under the
  setting's name. What \<open>.val()\<close> reports once \<open>.val(v)\<close> has been called is the
  parameter \<open>reported\<close>; \<open>checked\<close> is a boolean property. The colour pickers only get
  their \<open>color\<close> attribute set. The pairs are (control id, setting read).
\<close>

definition valControls :: "(string \<times> string) list" where
  "valControls =
    [(''tl_node_width'', ''nodeWidth''),
     (''tl_node_height'', ''nodeHeight''),
     (''tl_node_separation'', ''nodeSeparation''),
     (''tl_edge_separation'', ''edgeSeparation''),
     (''tl_rank_separation'', ''rankSeparation''),
     (''tl_spacing_factor'', ''spacingFactor''),
     (''tl_node_shape'', ''nodeShape''),
     (''tl_curve_style'', ''curveStyle'')]"

definition checkedControls :: "(string \<times> string) list" where
  "checkedControls =
    [(''tl_avatar_as_root'', ''avatarAsRoot''),
     (''tl_use_chat_colors'', ''useChatColors''),
     (''tl_lock_nodes'', ''lockNodes'')]"

definition colorControls :: "(string \<times> string) list" where
  "colorControls =
    [(''bookmark-color-picker'', ''bookmarkColor''),
     (''edge-color-picker'', ''edgeColor''),
     (''user-node-color-picker'', ''userNodeColor''),
     (''char-node-color-picker'', ''charNodeColor'')]"

definition setVal :: "(element \<Rightarrow> jsval \<Rightarrow> jsval) \<Rightarrow> element \<Rightarrow> jsval \<Rightarrow> element" where
  "setVal reported el v = el\<lparr>val := reported el v\<rparr>"

definition setChecked :: "element \<Rightarrow> jsval \<Rightarrow> element" where
  "setChecked el v = el\<lparr>checked := truthy v\<rparr>"

definition setAndTrigger ::
    "(element \<Rightarrow> jsval \<Rightarrow> element) \<Rightarrow> (string \<Rightarrow> int option) \<Rightarrow> string \<times> string
      \<Rightarrow> panel_call list \<times> panel \<times> state \<Rightarrow> panel_call list \<times> panel \<times> state" where
  "setAndTrigger setter num p acc =
     (case acc of (calls, pnl, s) \<Rightarrow>
        (case pnl (fst p) of
           None \<Rightarrow> (calls, pnl, s)
         | Some el \<Rightarrow>
             (let el' = setter el (getProp (timeline s) (snd p));
                  r = onInputEvent num (fst p) el' s
              in (calls @ fst r, pnl(fst p \<mapsto> el'), snd r))))"

text \<open>
  \<open>loadSettings\<close>: the arguments are the panel, \<open>extension_settings.timeline\<close> as it was
  found and the module's variables (the \<open>timeline\<close> field of the argument is replaced by
  the merged mapping). The result is what the listeners called, the \<open>color\<close> attributes
  set, the controls and the variables afterwards.
\<close>

record loaded =
  panelCalls :: "panel_call list"
  colorAttrs :: "(string \<times> jsval) list"
  controls :: panel
  loadedState :: state

definition loadSettings ::
    "(element \<Rightarrow> jsval \<Rightarrow> jsval) \<Rightarrow> (string \<Rightarrow> int option) \<Rightarrow> panel \<Rightarrow> settings option
      \<Rightarrow> state \<Rightarrow> loaded" where
  "loadSettings reported num pnl timeline0 s =
     (let s1 = s\<lparr>timeline := mergeDefaults timeline0\<rparr>;
          a1 = fold (setAndTrigger (setVal reported) num) valControls ([], pnl, s1);
          a2 = fold (setAndTrigger setChecked num) checkedControls a1
      in case a2 of (calls, pnl', s') \<Rightarrow>
           \<lparr>panelCalls = calls,
            colorAttrs = map (\<lambda>p. (fst p, getProp (timeline s') (snd p))) colorControls,
            controls = pnl',
            loadedState = s'\<rparr>)"

text \<open>
  The value \<open>onInputChange\<close> stores for an element when no \<open>rgbaValue\<close> is passed
  (it is \<open>null\<close> by default).
\<close>

definition controlValue :: "element \<Rightarrow> jsval" where
  "controlValue el =
     (if kind el = Checkbox then JBool (checked el)
      else if kind el = ColorPicker then JNull
      else val el)"

subsection \<open>The legend as the spec words it\<close>

text \<open>
  For comparison with \<open>createLegend\<close>: "nodes first (one per distinct non-empty name,
  first-seen order), then edges (one per distinct non-empty color ...)".
  \<open>firstByKey\<close> keeps, of the elements that share a key, the first one, in the order of
  the list. The label of a row is the text that \<open>createLegendItem\<close> displays.
\<close>

fun firstByKey :: "('a \<Rightarrow> 'k) \<Rightarrow> 'a list \<Rightarrow> 'a list" where
  "firstByKey key [] = []"
| "firstByKey key (x # xs) = x # firstByKey key (filter (\<lambda>y. key y \<noteq> key x) xs)"

definition hasName :: "node \<Rightarrow> bool" where
  "hasName n = (case name n of None \<Rightarrow> False | Some nm \<Rightarrow> nm \<noteq> [])"

definition hasColor :: "edge \<Rightarrow> bool" where
  "hasColor e = (case color e of None \<Rightarrow> False | Some c \<Rightarrow> c \<noteq> [])"

definition nodeRow :: "node \<Rightarrow> legend_item" where
  "nodeRow n =
     \<lparr>selector = nodeSelector (fieldText (name n)),
      symbol = BackgroundColor (background_color n),
      legendText = splitFirst (fieldText (name n)),
      active = False\<rparr>"

definition edgeRow :: "edge \<Rightarrow> legend_item" where
  "edgeRow e =
     \<lparr>selector = edgeSelector (fieldText (color e)),
      symbol = BorderTop3pxSolid (fieldText (color e)),
      legendText =
        splitFirst (if fieldText (bookmarkName e) \<noteq> [] then fieldText (bookmarkName e)
                    else ''Path of '' @ fieldText (color e)),
      active = False\<rparr>"

definition legendRows :: "cy \<Rightarrow> legend_item list" where
  "legendRows c =
     map nodeRow (firstByKey name (filter hasName (nodes c)))
     @ map edgeRow (firstByKey color (filter hasColor (edges c)))"

subsection \<open>Invariant of the legend\<close>

text \<open>
  What holds of the legend rows and \<open>currentlyHighlighted\<close> between events: the rows
  have pairwise different selectors, and a row that carries \<open>active-legend\<close> is the row
  of the locked selector.
\<close>

definition legendInv :: "state \<Rightarrow> bool" where
  "legendInv s =
     (distinct (map selector (legendDiv s))
      \<and> (\<forall>j < length (legendDiv s).
            active (legendDiv s ! j) \<longrightarrow> currentlyHighlighted s = Some (selector (legendDiv s ! j))))"

subsection \<open>Initial state and a small graph\<close>

text \<open>
  The values the module-level variables start with (\<open>let currentlyHighlighted = null\<close>,
  \<open>let lastContext = null\<close>, \<open>let layout = {}\<close>, \<open>let lastTimelineData = null\<close>), the
  default settings, an empty legend, and the given Cytoscape instance.
\<close>

definition initialState :: "cy \<Rightarrow> state" where
  "initialState c =
     \<lparr>currentlyHighlighted = None, lastContext = None, layout = None,
      lastTimelineData = None, timeline = mergeDefaults None,
      graph = c, legendDiv = []\<rparr>"

text \<open>A graph of three messages in two sessions that fork after the second message.\<close>

definition demoNodes :: "node list" where
  "demoNodes =
     [\<lparr>node_id = ''n0'', name = Some ''Alice'', msg = Some ''Hello there'',
       chat_sessions = Some [''s1'', ''s2''], file_name = Some ''s1'', background_color = ''#ADD8E6''\<rparr>,
      \<lparr>node_id = ''n1'', name = Some ''Bob'', msg = Some ''General Kenobi'',
       chat_sessions = Some [''s1''], file_name = Some ''s1'', background_color = ''#FFFFFF''\<rparr>,
      \<lparr>node_id = ''n2'', name = Some ''Bob'', msg = Some ''Who are you?'',
       chat_sessions = Some [''s2''], file_name = Some ''s2'', background_color = ''#FFFFFF''\<rparr>]"

definition demoEdges :: "edge list" where
  "demoEdges =
     [\<lparr>source = ''n0'', target = ''n1'', color = Some ''#555'', bookmarkName = None\<rparr>,
      \<lparr>source = ''n0'', target = ''n2'', color = Some ''#ff0000'', bookmarkName = Some ''fork''\<rparr>]"

definition demoGraph :: cy where
  "demoGraph = \<lparr>nodes = demoNodes, edges = demoEdges, styleCalls = []\<rparr>"

subsection \<open>Contexts whose look-ups succeed\<close>

text \<open>
  The contexts on which \<open>updateTimelineDataIfNeeded\<close> does not throw: the selected
  character is in \<open>context.characters\<close>, or, with no character, the selected group
  (if any) is in \<open>context.groups\<close>.
\<close>

definition lookupsSucceed :: "app_context \<Rightarrow> bool" where
  "lookupsSucceed context =
     (if truthy (characterId context) then characters context (characterId context) \<noteq> None
      else if truthy (groupId context)
           then find (\<lambda>g. group_id g = groupId context) (groups context) \<noteq> None
           else True)"

text \<open>Two character contexts, a group context, and stand-ins for the data collaborators.\<close>

definition demoContext :: "jsval \<Rightarrow> app_context" where
  "demoContext chid =
     \<lparr>characterId = chid, groupId = JUndefined, groups = [],
      characters = [JStr ''3'' \<mapsto> ''alice.png'', JStr ''4'' \<mapsto> ''bob.png'']\<rparr>"

definition demoGroupContext :: app_context where
  "demoGroupContext =
     \<lparr>characterId = JUndefined, groupId = JStr ''g1'',
      groups = [\<lparr>group_id = JStr ''g1'', chats = [''chat a'', ''chat b'']\<rparr>],
      characters = Map.empty\<rparr>"

definition demoCollaborators :: "string collaborators" where
  "demoCollaborators =
     \<lparr>fetchData = (\<lambda>avatar. ''chats of '' @ avatar),
      prepareData = (\<lambda>d isGroupChat. map NodeElem demoNodes @ map EdgeElem demoEdges)\<rparr>"

definition demoSlider :: element where
  "demoSlider = \<lparr>element_id = ''tl_node_width'', kind = OtherInput, checked = False, val = JStr ''25''\<rparr>"

text \<open>Before any hover: \<open>let showTimeout;\<close>, no timer created, no tooltip made.\<close>

definition initialHover :: hover_state where
  "initialHover =
     \<lparr>showTimeout = None, timersCreated = 0, pendingTimers = [],
      node_tippy = Map.empty, appeared = []\<rparr>"

subsection \<open>Invariants of the hover timers\<close>

text \<open>Handles in use are handles that were handed out.\<close>

definition issued :: "hover_state \<Rightarrow> bool" where
  "issued h =
     ((\<forall>p \<in> set (pendingTimers h). fst p \<le> timersCreated h)
      \<and> (\<forall>p \<in> set (appeared h). fst p \<le> timersCreated h))"

text \<open>While the timer of handle \<open>t\<close> is the one in \<open>showTimeout\<close> and has not fired.\<close>

definition armed :: "nat \<Rightarrow> hover_state \<Rightarrow> bool" where
  "armed t h = (showTimeout h = Some t \<and> t \<noteq> 0 \<and> t \<le> timersCreated h
                \<and> t \<notin> fst ` set (appeared h))"

text \<open>Once the timer of handle \<open>t\<close> has been cleared.\<close>

definition cancelled :: "nat \<Rightarrow> hover_state \<Rightarrow> bool" where
  "cancelled t h = (t \<le> timersCreated h \<and> t \<notin> fst ` set (pendingTimers h)
                    \<and> t \<notin> fst ` set (appeared h))"

subsection \<open>A settings panel of text-like inputs\<close>

text \<open>
  A stand-in for the panel of \<open>timeline.html\<close>: every slider and select is there as an
  input that reports, as \<open>.val()\<close> of an input element does, the text of the value it was
  given; the three toggles are there as checkboxes.
\<close>

definition intStr :: "int \<Rightarrow> string" where
  "intStr n = (if n < 0 then CHR ''-'' # indexStr (nat (- n)) else indexStr (nat n))"

fun textOf :: "jsval \<Rightarrow> string" where
  "textOf JUndefined = []"
| "textOf JNull = []"
| "textOf (JBool b) = (if b then ''true'' else ''false'')"
| "textOf (JNum n) = intStr n"
| "textOf (JStr t) = t"

definition reportsText :: "element \<Rightarrow> jsval \<Rightarrow> jsval" where
  "reportsText el v = JStr (textOf v)"

definition demoPanel :: panel where
  "demoPanel =
     map_of
       (map (\<lambda>p. (fst p, \<lparr>element_id = fst p, kind = OtherInput, checked = False, val = JStr []\<rparr>))
          valControls
        @ map (\<lambda>p. (fst p, \<lparr>element_id = fst p, kind = Checkbox, checked = False, val = JStr ''on''\<rparr>))
            checkedControls)"

section \<open>Properties\<close>

subsection \<open>Settings merge\<close>

lemma mergeDefault_present:
  "t key = Some v \<Longrightarrow> mergeDefault d t key = Some v"
  by (cases "fst d = key") (simp_all add: mergeDefault_def hasOwnProperty_def)

lemma fold_mergeDefault_present:
  "t key = Some v \<Longrightarrow> fold mergeDefault ds t key = Some v"
  by (induction ds arbitrary: t) (simp_all add: mergeDefault_present)

lemma fold_mergeDefault_absent:
  "t key = None \<Longrightarrow> fold mergeDefault ds t key = map_of ds key"
proof (induction ds arbitrary: t)
  case Nil
  then show ?case by simp
next
  case (Cons d ds)
  obtain k v where d: "d = (k, v)" by (cases d)
  show ?case
  proof (cases "k = key")
    case True
    with Cons.prems d have "mergeDefault d t key = Some v"
      by (simp add: mergeDefault_def hasOwnProperty_def)
    then have "fold mergeDefault ds (mergeDefault d t) key = Some v"
      by (rule fold_mergeDefault_present)
    with True d show ?thesis by simp
  next
    case False
    with Cons.prems d have "mergeDefault d t key = None"
      by (simp add: mergeDefault_def)
    then have "fold mergeDefault ds (mergeDefault d t) key = map_of ds key"
      by (rule Cons.IH)
    with False d show ?thesis by simp
  qed
qed

lemma distinct_defaultSettings: "distinct (map fst defaultSettings)"
  by (simp add: defaultSettings_def)

lemma timeline_onInputChange:
  "timeline (snd (onInputChange num el k JNull s)) = (timeline s)(k \<mapsto> controlValue el)"
  by (simp add: onInputChange_def controlValue_def Let_def)

text \<open>The pairs whose \<open>input\<close> listener stores under the very setting that is read.\<close>

lemma listener_of_controls:
  "p \<in> set (valControls @ checkedControls) \<Longrightarrow>
   onInputEvent num (fst p) el s = onInputChange num el (snd p) JNull s"
  by (auto simp: valControls_def checkedControls_def onInputEvent_def idsToSettingsMap_def
        sublist_code)

lemma setAndTrigger_timeline:
  assumes "onInputEvent num (fst p) = (\<lambda>el s. onInputChange num el (snd p) JNull s)"
  shows "timeline (snd (snd (setAndTrigger setter num p (calls, pnl, s)))) =
          (case pnl (fst p) of
             None \<Rightarrow> timeline s
           | Some el \<Rightarrow> (timeline s)(snd p \<mapsto> controlValue (setter el (getProp (timeline s) (snd p)))))"
  using assms
  by (simp add: setAndTrigger_def Let_def timeline_onInputChange split: option.splits)

lemma setAndTrigger_panel:
  "i \<noteq> fst p \<Longrightarrow> fst (snd (setAndTrigger setter num p (calls, pnl, s))) i = pnl i"
  by (simp add: setAndTrigger_def Let_def split: option.splits)

lemma fold_setAndTrigger:
  assumes "\<forall>p \<in> set ps. onInputEvent num (fst p) = (\<lambda>el s. onInputChange num el (snd p) JNull s)"
    and "distinct (map fst ps)" and "distinct (map snd ps)"
  shows "(k \<notin> snd ` set ps \<longrightarrow>
            timeline (snd (snd (fold (setAndTrigger setter num) ps (calls, pnl, s)))) k = timeline s k)
       \<and> (i \<notin> fst ` set ps \<longrightarrow>
            fst (snd (fold (setAndTrigger setter num) ps (calls, pnl, s))) i = pnl i)
       \<and> ((i, k) \<in> set ps \<longrightarrow>
            timeline (snd (snd (fold (setAndTrigger setter num) ps (calls, pnl, s)))) k =
              (case pnl i of
                 None \<Rightarrow> timeline s k
               | Some el \<Rightarrow> Some (controlValue (setter el (getProp (timeline s) k)))))"
  using assms
proof (induction ps arbitrary: calls pnl s)
  case Nil
  then show ?case by simp
next
  case (Cons p ps)
  obtain calls' pnl' s' where st: "setAndTrigger setter num p (calls, pnl, s) = (calls', pnl', s')"
    by (cases "setAndTrigger setter num p (calls, pnl, s)") auto
  from Cons.prems(1)
  have good: "onInputEvent num (fst p) = (\<lambda>el s. onInputChange num el (snd p) JNull s)" by simp
  have tl: "timeline s' =
          (case pnl (fst p) of
             None \<Rightarrow> timeline s
           | Some el \<Rightarrow> (timeline s)(snd p \<mapsto> controlValue (setter el (getProp (timeline s) (snd p)))))"
    using setAndTrigger_timeline [OF good, of setter calls pnl s] st by simp
  have pn: "pnl' j = pnl j" if "j \<noteq> fst p" for j
    using setAndTrigger_panel [OF that, of setter num calls pnl s] st by simp
  have other: "timeline s' j = timeline s j" if "j \<noteq> snd p" for j
    using tl that by (simp split: option.splits)
  from Cons.prems have ih:
    "(k \<notin> snd ` set ps \<longrightarrow>
        timeline (snd (snd (fold (setAndTrigger setter num) ps (calls', pnl', s')))) k = timeline s' k)
     \<and> (i \<notin> fst ` set ps \<longrightarrow>
        fst (snd (fold (setAndTrigger setter num) ps (calls', pnl', s'))) i = pnl' i)
     \<and> ((i, k) \<in> set ps \<longrightarrow>
        timeline (snd (snd (fold (setAndTrigger setter num) ps (calls', pnl', s')))) k =
          (case pnl' i of
             None \<Rightarrow> timeline s' k
           | Some el \<Rightarrow> Some (controlValue (setter el (getProp (timeline s') k)))))"
    by (intro Cons.IH) simp_all
  have fo: "fold (setAndTrigger setter num) (p # ps) (calls, pnl, s)
      = fold (setAndTrigger setter num) ps (calls', pnl', s')"
    by (simp add: st)
  have a: "timeline (snd (snd (fold (setAndTrigger setter num) (p # ps) (calls, pnl, s)))) k = timeline s k"
    if "k \<notin> snd ` set (p # ps)"
  proof -
    from that have "k \<noteq> snd p" "k \<notin> snd ` set ps" by auto
    with ih other show ?thesis unfolding fo by simp
  qed
  have b: "fst (snd (fold (setAndTrigger setter num) (p # ps) (calls, pnl, s))) i = pnl i"
    if "i \<notin> fst ` set (p # ps)"
  proof -
    from that have "i \<noteq> fst p" "i \<notin> fst ` set ps" by auto
    with ih pn show ?thesis unfolding fo by simp
  qed
  have c: "timeline (snd (snd (fold (setAndTrigger setter num) (p # ps) (calls, pnl, s)))) k =
              (case pnl i of
                 None \<Rightarrow> timeline s k
               | Some el \<Rightarrow> Some (controlValue (setter el (getProp (timeline s) k))))"
    if m: "(i, k) \<in> set (p # ps)"
  proof (cases "p = (i, k)")
    case True
    with Cons.prems(3) have "k \<notin> snd ` set ps" by auto
    with ih have "timeline (snd (snd (fold (setAndTrigger setter num) ps (calls', pnl', s')))) k
        = timeline s' k" by simp
    with tl True show ?thesis unfolding fo by (simp split: option.splits)
  next
    case False
    with m have mem: "(i, k) \<in> set ps" by simp
    then have "i \<in> fst ` set ps" "k \<in> snd ` set ps" by force+
    moreover from Cons.prems(2,3) have "fst p \<notin> fst ` set ps" "snd p \<notin> snd ` set ps" by simp_all
    ultimately have ne: "i \<noteq> fst p" "k \<noteq> snd p" by blast+
    from ih mem have "timeline (snd (snd (fold (setAndTrigger setter num) ps (calls', pnl', s')))) k =
          (case pnl' i of
             None \<Rightarrow> timeline s' k
           | Some el \<Rightarrow> Some (controlValue (setter el (getProp (timeline s') k))))" by simp
    moreover have "pnl' i = pnl i" using ne pn by simp
    moreover have "timeline s' k = timeline s k" using ne other by simp
    moreover have "getProp (timeline s') k = getProp (timeline s) k"
      using ne other by (simp add: getProp_def)
    ultimately show ?thesis unfolding fo by (cases "pnl i") simp_all
  qed
  from a b c show ?case by blast
qed


lemma listener_eq:
  "p \<in> set (valControls @ checkedControls) \<Longrightarrow>
   onInputEvent num (fst p) = (\<lambda>el s. onInputChange num el (snd p) JNull s)"
  by (intro ext) (rule listener_of_controls)

lemma distinct_controls:
  "distinct (map fst (valControls @ checkedControls))"
  "distinct (map snd (valControls @ checkedControls))"
  by (simp_all add: valControls_def checkedControls_def)

lemma loadSettings_timeline:
  "(k \<notin> snd ` set (valControls @ checkedControls) \<longrightarrow>
      timeline (loadedState (loadSettings reported num pnl timeline0 s)) k = mergeDefaults timeline0 k)
   \<and> ((i, k) \<in> set (valControls @ checkedControls) \<and> pnl i = None \<longrightarrow>
      timeline (loadedState (loadSettings reported num pnl timeline0 s)) k = mergeDefaults timeline0 k)
   \<and> ((i, k) \<in> set valControls \<and> pnl i = Some el \<longrightarrow>
      timeline (loadedState (loadSettings reported num pnl timeline0 s)) k
        = Some (controlValue (el\<lparr>val := reported el (getProp (mergeDefaults timeline0) k)\<rparr>)))
   \<and> ((i, k) \<in> set checkedControls \<and> pnl i = Some el \<longrightarrow>
      timeline (loadedState (loadSettings reported num pnl timeline0 s)) k
        = Some (controlValue (el\<lparr>checked := truthy (getProp (mergeDefaults timeline0) k)\<rparr>)))"
proof -
  let ?s1 = "s\<lparr>timeline := mergeDefaults timeline0\<rparr>"
  let ?a1 = "fold (setAndTrigger (setVal reported) num) valControls ([], pnl, ?s1)"
  let ?a2 = "fold (setAndTrigger setChecked num) checkedControls ?a1"
  have fin: "loadedState (loadSettings reported num pnl timeline0 s) = snd (snd ?a2)"
    by (simp add: loadSettings_def Let_def split: prod.splits)
  have gv: "\<forall>p \<in> set valControls.
      onInputEvent num (fst p) = (\<lambda>el s. onInputChange num el (snd p) JNull s)"
    and gc: "\<forall>p \<in> set checkedControls.
      onInputEvent num (fst p) = (\<lambda>el s. onInputChange num el (snd p) JNull s)"
    using listener_eq by auto
  have dv: "distinct (map fst valControls)" "distinct (map snd valControls)"
    and dc: "distinct (map fst checkedControls)" "distinct (map snd checkedControls)"
    using distinct_controls by simp_all
  have disj: "fst ` set valControls \<inter> fst ` set checkedControls = {}"
       "snd ` set valControls \<inter> snd ` set checkedControls = {}"
    using distinct_controls by auto
  note f1 = fold_setAndTrigger [OF gv dv, of _ "setVal reported" "[]" pnl ?s1]
  have a1: "?a1 = (fst ?a1, fst (snd ?a1), snd (snd ?a1))" by simp
  have f2: "(k' \<notin> snd ` set checkedControls \<longrightarrow>
            timeline (snd (snd ?a2)) k' = timeline (snd (snd ?a1)) k')
       \<and> ((i', k') \<in> set checkedControls \<longrightarrow>
            timeline (snd (snd ?a2)) k' =
              (case fst (snd ?a1) i' of
                 None \<Rightarrow> timeline (snd (snd ?a1)) k'
               | Some el \<Rightarrow> Some (controlValue (setChecked el (getProp (timeline (snd (snd ?a1))) k')))))"
    for i' k'
    using fold_setAndTrigger [OF gc dc, of k' setChecked "fst ?a1" "fst (snd ?a1)" "snd (snd ?a1)" i']
    by (subst (1 2) a1) blast
  have A: "timeline (snd (snd ?a2)) k = mergeDefaults timeline0 k"
    if "k \<notin> snd ` set (valControls @ checkedControls)"
  proof -
    from that have "k \<notin> snd ` set valControls" "k \<notin> snd ` set checkedControls" by auto
    with f1 [of k i] f2 [of k i] show ?thesis by simp
  qed
  have V: "timeline (snd (snd ?a2)) k =
        (case pnl i of None \<Rightarrow> mergeDefaults timeline0 k
         | Some el \<Rightarrow> Some (controlValue (setVal reported el (getProp (mergeDefaults timeline0) k))))"
    if m: "(i, k) \<in> set valControls"
  proof -
    from m have "k \<in> snd ` set valControls" by force
    with disj have "k \<notin> snd ` set checkedControls" by auto
    with f2 [of k i] have "timeline (snd (snd ?a2)) k = timeline (snd (snd ?a1)) k" by simp
    with f1 [of k i] m show ?thesis by (cases "pnl i") (simp_all add: getProp_def)
  qed
  have C: "timeline (snd (snd ?a2)) k =
        (case pnl i of None \<Rightarrow> mergeDefaults timeline0 k
         | Some el \<Rightarrow> Some (controlValue (setChecked el (getProp (mergeDefaults timeline0) k))))"
    if m: "(i, k) \<in> set checkedControls"
  proof -
    from m have "k \<in> snd ` set checkedControls" "i \<in> fst ` set checkedControls" by force+
    with disj have nk: "k \<notin> snd ` set valControls" and ni: "i \<notin> fst ` set valControls" by auto
    from f1 [of k i] nk ni have t: "timeline (snd (snd ?a1)) k = mergeDefaults timeline0 k"
      and p: "fst (snd ?a1) i = pnl i" by simp_all
    from t have g: "getProp (timeline (snd (snd ?a1))) k = getProp (mergeDefaults timeline0) k"
      by (simp add: getProp_def)
    from f2 [of k i] m show ?thesis unfolding p t g by simp
  qed
  show ?thesis
    unfolding fin using A V C
    by (auto simp: setVal_def setChecked_def)
qed


lemma mergeDefaults_present:
  "ensureTimeline timeline0 key = Some v \<Longrightarrow> mergeDefaults timeline0 key = Some v"
  by (simp add: mergeDefaults_def fold_mergeDefault_present)

lemma mergeDefaults_default:
  "ensureTimeline timeline0 key = None \<Longrightarrow> (key, d) \<in> set defaultSettings \<Longrightarrow>
   mergeDefaults timeline0 key = Some d"
  using distinct_defaultSettings
  by (simp add: mergeDefaults_def fold_mergeDefault_absent map_of_eq_Some_iff)

lemma mergeDefaults_other:
  "ensureTimeline timeline0 key = None \<Longrightarrow> key \<notin> fst ` set defaultSettings \<Longrightarrow>
   mergeDefaults timeline0 key = None"
  by (simp add: mergeDefaults_def fold_mergeDefault_absent map_of_eq_None_iff)

text \<open>
  Claim C8, amended. \<open>loadSettings\<close> first merges: a key that was present keeps its
  value, a missing key of \<open>defaultSettings\<close> gets its default, no other key is added.
  Then it refreshes the panel, and the \<open>input\<close> listeners it triggers store back what
  the controls report. Afterwards a key that has no slider, select or checkbox (the
  four colours, any foreign key), or whose control is not in the document, holds the
  merged value; each of the eight keys set with \<open>.val\<close> and the three set with
  \<open>.prop("checked")\<close> holds what \<open>onInputChange\<close> reads from its control once the control
  has been set to the merged value.
\<close>

theorem loadSettings_merges_then_reads_back:
  "(ensureTimeline timeline0 key = Some v \<longrightarrow> mergeDefaults timeline0 key = Some v)
   \<and> (ensureTimeline timeline0 key = None \<and> (key, d) \<in> set defaultSettings
        \<longrightarrow> mergeDefaults timeline0 key = Some d)
   \<and> (ensureTimeline timeline0 key = None \<and> key \<notin> fst ` set defaultSettings
        \<longrightarrow> mergeDefaults timeline0 key = None)
   \<and> (key \<notin> snd ` set (valControls @ checkedControls) \<longrightarrow>
        timeline (loadedState (loadSettings reported num pnl timeline0 s)) key
          = mergeDefaults timeline0 key)
   \<and> ((i, key) \<in> set (valControls @ checkedControls) \<and> pnl i = None \<longrightarrow>
        timeline (loadedState (loadSettings reported num pnl timeline0 s)) key
          = mergeDefaults timeline0 key)
   \<and> ((i, key) \<in> set valControls \<and> pnl i = Some el \<longrightarrow>
        timeline (loadedState (loadSettings reported num pnl timeline0 s)) key
          = Some (controlValue (el\<lparr>val := reported el (getProp (mergeDefaults timeline0) key)\<rparr>)))
   \<and> ((i, key) \<in> set checkedControls \<and> pnl i = Some el \<longrightarrow>
        timeline (loadedState (loadSettings reported num pnl timeline0 s)) key
          = Some (controlValue (el\<lparr>checked := truthy (getProp (mergeDefaults timeline0) key)\<rparr>)))"
  using loadSettings_timeline [where k = key and i = i and pnl = pnl and reported = reported
      and num = num and ?timeline0.0 = timeline0 and s = s and el = el]
  by (simp add: mergeDefaults_present mergeDefaults_default mergeDefaults_other)

lemma demoPanel_slider:
  "demoPanel ''tl_node_width''
     = Some \<lparr>element_id = ''tl_node_width'', kind = OtherInput, checked = False, val = JStr []\<rparr>"
  by (simp add: demoPanel_def valControls_def checkedControls_def)

lemma demoPanel_toggle:
  "demoPanel ''tl_lock_nodes''
     = Some \<lparr>element_id = ''tl_lock_nodes'', kind = Checkbox, checked = False, val = JStr ''on''\<rparr>"
  by (simp add: demoPanel_def valControls_def checkedControls_def)

lemma intStr_40: "intStr 40 = ''40''"
  by code_simp

theorem loadSettings_merges_then_reads_back_witness:
  "timeline (loadedState (loadSettings reportsText (\<lambda>t. None) demoPanel
       (Some [''nodeWidth'' \<mapsto> JStr ''40'', ''mine'' \<mapsto> JNull]) (initialState demoGraph))) ''mine''
     = Some JNull
   \<and> timeline (loadedState (loadSettings reportsText (\<lambda>t. None) demoPanel
       (Some [''nodeWidth'' \<mapsto> JStr ''40'', ''mine'' \<mapsto> JNull]) (initialState demoGraph))) ''edgeColor''
     = Some (JStr ''#555'')
   \<and> timeline (loadedState (loadSettings reportsText (\<lambda>t. None) demoPanel
       (Some [''nodeWidth'' \<mapsto> JStr ''40'', ''mine'' \<mapsto> JNull]) (initialState demoGraph))) ''nodeWidth''
     = Some (JStr ''40'')
   \<and> timeline (loadedState (loadSettings reportsText (\<lambda>t. None) demoPanel
       (Some [''nodeWidth'' \<mapsto> JStr ''40'', ''mine'' \<mapsto> JNull]) (initialState demoGraph))) ''lockNodes''
     = Some (JBool True)"
proof -
  let ?t0 = "Some [''nodeWidth'' \<mapsto> JStr ''40'', ''mine'' \<mapsto> JNull]"
  let ?final = "timeline (loadedState (loadSettings reportsText (\<lambda>t. None) demoPanel ?t0
                  (initialState demoGraph)))"
  have e1: "ensureTimeline ?t0 ''mine'' = Some JNull"
    and e2: "ensureTimeline ?t0 ''edgeColor'' = None"
    and e3: "ensureTimeline ?t0 ''nodeWidth'' = Some (JStr ''40'')"
    and e4: "ensureTimeline ?t0 ''lockNodes'' = None"
    by (simp_all add: ensureTimeline_def)
  have d2: "(''edgeColor'', JStr ''#555'') \<in> set defaultSettings"
    and d4: "(''lockNodes'', JBool True) \<in> set defaultSettings"
    by (simp_all add: defaultSettings_def)
  have n1: "''mine'' \<notin> snd ` set (valControls @ checkedControls)"
    and n2: "''edgeColor'' \<notin> snd ` set (valControls @ checkedControls)"
    by (simp_all add: valControls_def checkedControls_def)
  have c3: "(''tl_node_width'', ''nodeWidth'') \<in> set valControls"
    and c4: "(''tl_lock_nodes'', ''lockNodes'') \<in> set checkedControls"
    by (simp_all add: valControls_def checkedControls_def)
  from loadSettings_merges_then_reads_back
         [where ?timeline0.0 = ?t0 and key = "''mine''" and v = JNull and reported = reportsText
            and num = "\<lambda>t. None" and pnl = demoPanel and s = "initialState demoGraph"]
       e1 n1
  have r1: "?final ''mine'' = Some JNull" by simp
  from loadSettings_merges_then_reads_back
         [where ?timeline0.0 = ?t0 and key = "''edgeColor''" and d = "JStr ''#555''"
            and reported = reportsText and num = "\<lambda>t. None" and pnl = demoPanel
            and s = "initialState demoGraph"]
       e2 d2 n2
  have r2: "?final ''edgeColor'' = Some (JStr ''#555'')" by simp
  from loadSettings_merges_then_reads_back
         [where ?timeline0.0 = ?t0 and key = "''nodeWidth''" and v = "JStr ''40''"
            and reported = reportsText and num = "\<lambda>t. None" and pnl = demoPanel
            and s = "initialState demoGraph" and i = "''tl_node_width''"
            and el = "\<lparr>element_id = ''tl_node_width'', kind = OtherInput, checked = False, val = JStr []\<rparr>"]
       e3 c3 demoPanel_slider
  have r3: "?final ''nodeWidth'' = Some (JStr ''40'')"
    by (simp add: controlValue_def getProp_def reportsText_def)
  from loadSettings_merges_then_reads_back
         [where ?timeline0.0 = ?t0 and key = "''lockNodes''" and d = "JBool True"
            and reported = reportsText and num = "\<lambda>t. None" and pnl = demoPanel
            and s = "initialState demoGraph" and i = "''tl_lock_nodes''"
            and el = "\<lparr>element_id = ''tl_lock_nodes'', kind = Checkbox, checked = False, val = JStr ''on''\<rparr>"]
       e4 d4 c4 demoPanel_toggle
  have r4: "?final ''lockNodes'' = Some (JBool True)"
    by (simp add: controlValue_def getProp_def)
  from r1 r2 r3 r4 show ?thesis by blast
qed

text \<open>
  With "leaves the value of every already-present option key unchanged" the statement
  fails: a stored number 40 for \<open>nodeWidth\<close> is written to its input, the triggered
  listener reads the input back, and the stored value is the text \<open>40\<close>.
\<close>

theorem loadSettings_number_becomes_text_counterexample:
  "ensureTimeline (Some [''nodeWidth'' \<mapsto> JNum 40]) ''nodeWidth'' = Some (JNum 40)
   \<and> timeline (loadedState (loadSettings reportsText (\<lambda>t. None) demoPanel
        (Some [''nodeWidth'' \<mapsto> JNum 40]) (initialState demoGraph))) ''nodeWidth''
      = Some (JStr ''40'')"
proof -
  have e: "ensureTimeline (Some [''nodeWidth'' \<mapsto> JNum 40]) ''nodeWidth'' = Some (JNum 40)"
    by (simp add: ensureTimeline_def)
  then have m: "mergeDefaults (Some [''nodeWidth'' \<mapsto> JNum 40]) ''nodeWidth'' = Some (JNum 40)"
    by (rule mergeDefaults_present)
  have c: "(''tl_node_width'', ''nodeWidth'') \<in> set valControls"
    by (simp add: valControls_def)
  from loadSettings_timeline
         [where k = "''nodeWidth''" and i = "''tl_node_width''" and pnl = demoPanel
            and reported = reportsText and num = "\<lambda>t. None"
            and ?timeline0.0 = "Some [''nodeWidth'' \<mapsto> JNum 40]" and s = "initialState demoGraph"
            and el = "\<lparr>element_id = ''tl_node_width'', kind = OtherInput, checked = False, val = JStr []\<rparr>"]
       c demoPanel_slider
  have "timeline (loadedState (loadSettings reportsText (\<lambda>t. None) demoPanel
        (Some [''nodeWidth'' \<mapsto> JNum 40]) (initialState demoGraph))) ''nodeWidth''
      = Some (JStr ''40'')"
    by (simp add: controlValue_def getProp_def m reportsText_def intStr_40)
  with e show ?thesis by blast
qed

subsection \<open>Node click\<close>

text \<open>
  On the nodes that carry chat sessions, a tap sends a navigate-to-message request
  \<open>(file_name, depth)\<close> exactly when the node has one session; with more than one
  nothing is sent. The modal is closed afterwards in both cases.
\<close>

lemma onNodeTap_with_sessions:
  "chat_sessions n = Some cs \<Longrightarrow> cs \<noteq> [] \<Longrightarrow>
   onNodeTap getNodeDepth n =
     (if length cs = 1 then [NavigateToMessage (file_name n) (getNodeDepth n), CloseModal]
      else [CloseModal])"
  by (cases cs) (auto simp: onNodeTap_def nodeClickHandler_def Let_def)

text \<open>
  Claim C1. "A navigate-to-message request if and only if the node has exactly one chat
  session" does not hold of the code at a node without \<open>chat_sessions\<close> (such as a root
  node, for which the context menu offers only \<open>No chat sessions available\<close>): the guard
  \<open>!(chatSessions && chatSessions.length > 1)\<close> lets it through, and a tap sends
  \<open>navigateToMessage(undefined, depth)\<close>.
\<close>

theorem onNodeTap_sessionless_node:
  "chat_sessions \<lparr>node_id = ''root'', name = None, msg = None, chat_sessions = None,
                   file_name = None, background_color = ''#fff''\<rparr> = None
   \<and> onNodeTap (\<lambda>n. 0)
         \<lparr>node_id = ''root'', name = None, msg = None, chat_sessions = None,
          file_name = None, background_color = ''#fff''\<rparr>
       = [NavigateToMessage None 0, CloseModal]"
  by (simp add: onNodeTap_def nodeClickHandler_def)

subsection \<open>Legend contents\<close>


lemma firstByKey_keys_subset: "set (firstByKey key xs) \<subseteq> set xs"
  by (induction key xs rule: firstByKey.induct) auto

lemma firstByKey_distinct: "distinct (map key (firstByKey key xs))"
proof (induction key xs rule: firstByKey.induct)
  case (1 key)
  then show ?case by simp
next
  case (2 key x xs)
  have "key x \<notin> key ` set (firstByKey key (filter (\<lambda>y. key y \<noteq> key x) xs))"
    using firstByKey_keys_subset [of key "filter (\<lambda>y. key y \<noteq> key x) xs"] by auto
  with 2 show ?case by simp
qed

lemma firstByKey_keys: "key ` set (firstByKey key xs) = key ` set xs"
proof (induction key xs rule: firstByKey.induct)
  case (1 key)
  then show ?case by simp
next
  case (2 key x xs)
  then show ?case by auto
qed

lemma firstByKey_subseq: "subseq (firstByKey key xs) xs"
proof (induction key xs rule: firstByKey.induct)
  case (1 key)
  then show ?case by simp
next
  case (2 key x xs)
  have "subseq (filter (\<lambda>y. key y \<noteq> key x) xs) xs" by simp
  with 2 have "subseq (firstByKey key (filter (\<lambda>y. key y \<noteq> key x) xs)) xs"
    using subseq_order.order_trans by blast
  then show ?case by simp
qed

lemma firstByKey_first:
  "x \<in> set (firstByKey key xs) \<Longrightarrow> find (\<lambda>y. key y = key x) xs = Some x"
proof (induction key xs rule: firstByKey.induct)
  case (1 key)
  then show ?case by simp
next
  case (2 key z xs)
  show ?case
  proof (cases "x = z")
    case True
    then show ?thesis by simp
  next
    case False
    with 2 have m: "x \<in> set (firstByKey key (filter (\<lambda>y. key y \<noteq> key z) xs))" by simp
    then have "x \<in> set (filter (\<lambda>y. key y \<noteq> key z) xs)"
      using firstByKey_keys_subset by fastforce
    then have ne: "key x \<noteq> key z" by simp
    from 2 m have "find (\<lambda>y. key y = key x) (filter (\<lambda>y. key y \<noteq> key z) xs) = Some x" by simp
    moreover have "find (\<lambda>y. key y = key x) (filter (\<lambda>y. key y \<noteq> key z) xs) = find (\<lambda>y. key y = key x) xs"
      using ne by (induction xs) auto
    ultimately show ?thesis using ne by simp
  qed
qed


lemma createLegendItem_circle:
  "name n = Some nm \<Longrightarrow>
   createLegendItem \<lparr>item_color = background_color n, item_text = nm, item_colorKey = None\<rparr> ''circle''
     = nodeRow n"
  by (simp add: createLegendItem_def nodeRow_def fieldText_def)

lemma createLegendItem_line:
  "color e = Some c \<Longrightarrow>
   createLegendItem \<lparr>item_color = c, item_text = edgeLabel (bookmarkName e) c, item_colorKey = Some c\<rparr> ''line''
     = edgeRow e"
  by (simp add: createLegendItem_def edgeRow_def fieldText_def edgeLabel_def templateStr_def
           split: option.splits)

lemma nodesLegend_rows:
  "snd (nodesLegend ns (seen, container)) =
     container @ map nodeRow (firstByKey name
       (filter (\<lambda>n. hasName n \<and> fieldText (name n) \<notin> seen) ns))"
proof (induction ns arbitrary: seen container)
  case Nil
  then show ?case by simp
next
  case (Cons n ns)
  show ?case
  proof (cases "name n")
    case None
    then show ?thesis by (simp add: Cons.IH hasName_def)
  next
    case (Some nm)
    show ?thesis
    proof (cases "nm \<noteq> [] \<and> nm \<notin> seen")
      case True
      have "filter (\<lambda>y. name y \<noteq> name n)
              (filter (\<lambda>n. hasName n \<and> fieldText (name n) \<notin> seen) ns)
            = filter (\<lambda>n. hasName n \<and> fieldText (name n) \<notin> insert nm seen) ns"
        unfolding filter_filter
        by (rule filter_cong) (auto simp: Some hasName_def fieldText_def split: option.splits)
      with True Some show ?thesis
        by (simp add: Cons.IH createLegendItem_circle hasName_def fieldText_def)
    next
      case False
      with Some show ?thesis by (auto simp: Cons.IH hasName_def fieldText_def)
    qed
  qed
qed

lemma edgesLegend_rows:
  "snd (edgesLegend es (edgeColors, container)) =
     container @ map edgeRow (firstByKey color
       (filter (\<lambda>e. hasColor e \<and> edgeColors (fieldText (color e)) = None) es))"
proof (induction es arbitrary: edgeColors container)
  case Nil
  then show ?case by simp
next
  case (Cons e es)
  show ?case
  proof (cases "color e")
    case None
    then show ?thesis by (simp add: Cons.IH hasColor_def)
  next
    case (Some c)
    show ?thesis
    proof (cases "c \<noteq> [] \<and> edgeColors c = None")
      case True
      have "filter (\<lambda>y. color y \<noteq> color e)
              (filter (\<lambda>e. hasColor e \<and> edgeColors (fieldText (color e)) = None) es)
            = filter (\<lambda>x. hasColor x \<and> (edgeColors(c \<mapsto> bookmarkName e)) (fieldText (color x)) = None) es"
        unfolding filter_filter
        by (rule filter_cong) (auto simp: Some hasColor_def fieldText_def split: option.splits)
      with True Some show ?thesis
        by (simp add: Cons.IH createLegendItem_line hasColor_def fieldText_def)
    next
      case False
      with Some show ?thesis by (auto simp: Cons.IH hasColor_def fieldText_def)
    qed
  qed
qed

text \<open>
  Claim C4, amended. \<open>createLegend\<close> ignores what the legend held and produces the node
  rows first, one for each distinct non-empty node name in first-seen order, then the
  edge rows, one for each distinct non-empty edge colour in first-seen order. The text
  shown in a row is its label cut at the first \<open>' - '\<close>: for an edge row the label is
  the \<open>bookmarkName\<close> of the first edge of that colour, or \<open>Path of {color}\<close> when that
  \<open>bookmarkName\<close> is undefined or empty. The conjuncts after the first say what \<open>firstByKey\<close>
  selects: rows have pairwise different keys, every non-empty name (colour) has a row,
  the rows follow the order of the graph's elements, and each row is made from the
  first element that has its name (colour).
\<close>

theorem createLegend_rows:
  "createLegend c legendContainer =
     map nodeRow (firstByKey name (filter hasName (nodes c)))
     @ map edgeRow (firstByKey color (filter hasColor (edges c)))
   \<and> distinct (map name (firstByKey name (filter hasName (nodes c))))
   \<and> name ` set (firstByKey name (filter hasName (nodes c))) = name ` set (filter hasName (nodes c))
   \<and> subseq (firstByKey name (filter hasName (nodes c))) (nodes c)
   \<and> distinct (map color (firstByKey color (filter hasColor (edges c))))
   \<and> color ` set (firstByKey color (filter hasColor (edges c))) = color ` set (filter hasColor (edges c))
   \<and> subseq (firstByKey color (filter hasColor (edges c))) (edges c)
   \<and> (\<forall>n \<in> set (firstByKey name (filter hasName (nodes c))).
         find (\<lambda>y. name y = name n) (filter hasName (nodes c)) = Some n)
   \<and> (\<forall>e \<in> set (firstByKey color (filter hasColor (edges c))).
         find (\<lambda>y. color y = color e) (filter hasColor (edges c)) = Some e)"
proof -
  have "createLegend c legendContainer = legendRows c"
    by (simp add: createLegend_def legendRows_def Let_def nodesLegend_rows edgesLegend_rows)
  moreover have "subseq (firstByKey name (filter hasName (nodes c))) (nodes c)"
    using firstByKey_subseq [of name "filter hasName (nodes c)"] subseq_filter_left [of hasName "nodes c"]
      subseq_order.order_trans by blast
  moreover have "subseq (firstByKey color (filter hasColor (edges c))) (edges c)"
    using firstByKey_subseq [of color "filter hasColor (edges c)"] subseq_filter_left [of hasColor "edges c"]
      subseq_order.order_trans by blast
  ultimately show ?thesis
    by (simp add: legendRows_def firstByKey_distinct firstByKey_keys firstByKey_first)
qed

theorem createLegend_rows_witness:
  "map legendText
     (createLegend
        \<lparr>nodes = [\<lparr>node_id = ''1'', name = Some ''Alice'', msg = None, chat_sessions = None,
                    file_name = None, background_color = ''#fff''\<rparr>,
                  \<lparr>node_id = ''2'', name = Some ''Bob'', msg = None, chat_sessions = None,
                    file_name = None, background_color = ''#add''\<rparr>,
                  \<lparr>node_id = ''3'', name = Some ''Alice'', msg = None, chat_sessions = None,
                    file_name = None, background_color = ''#fff''\<rparr>,
                  \<lparr>node_id = ''4'', name = None, msg = None, chat_sessions = None,
                    file_name = None, background_color = ''#fff''\<rparr>],
         edges = [\<lparr>source = ''1'', target = ''2'', color = Some ''#555'', bookmarkName = None\<rparr>,
                  \<lparr>source = ''2'', target = ''3'', color = Some ''#f00'', bookmarkName = Some ''fork''\<rparr>,
                  \<lparr>source = ''3'', target = ''4'', color = Some ''#555'', bookmarkName = Some ''late''\<rparr>],
         styleCalls = []\<rparr>
        [\<lparr>selector = ''old'', symbol = NoSymbolStyle, legendText = ''old'', active = True\<rparr>])
   = [''Alice'', ''Bob'', ''Path of #555'', ''fork'']"
  using createLegend_rows
     [of "\<lparr>nodes = [\<lparr>node_id = ''1'', name = Some ''Alice'', msg = None, chat_sessions = None,
                    file_name = None, background_color = ''#fff''\<rparr>,
                  \<lparr>node_id = ''2'', name = Some ''Bob'', msg = None, chat_sessions = None,
                    file_name = None, background_color = ''#add''\<rparr>,
                  \<lparr>node_id = ''3'', name = Some ''Alice'', msg = None, chat_sessions = None,
                    file_name = None, background_color = ''#fff''\<rparr>,
                  \<lparr>node_id = ''4'', name = None, msg = None, chat_sessions = None,
                    file_name = None, background_color = ''#fff''\<rparr>],
         edges = [\<lparr>source = ''1'', target = ''2'', color = Some ''#555'', bookmarkName = None\<rparr>,
                  \<lparr>source = ''2'', target = ''3'', color = Some ''#f00'', bookmarkName = Some ''fork''\<rparr>,
                  \<lparr>source = ''3'', target = ''4'', color = Some ''#555'', bookmarkName = Some ''late''\<rparr>],
         styleCalls = []\<rparr>"
         "[\<lparr>selector = ''old'', symbol = NoSymbolStyle, legendText = ''old'', active = True\<rparr>]"]
  by (simp add: hasName_def hasColor_def nodeRow_def edgeRow_def fieldText_def)

text \<open>
  With "labelled with the edge's bookmarkName" the statement fails: the row of an edge
  whose bookmark is named \<open>Checkpoint #1 - 2023-09-01\<close> shows \<open>Checkpoint #1\<close>, because
  \<open>createLegendItem\<close> displays \<open>item.text.split(' - ')[0]\<close>.
\<close>

theorem createLegend_label_counterexample:
  "map legendText
     (createLegend
        \<lparr>nodes = [],
         edges = [\<lparr>source = ''a'', target = ''b'', color = Some ''#ff0000'',
                   bookmarkName = Some ''Checkpoint #1 - 2023-09-01''\<rparr>],
         styleCalls = []\<rparr> [])
   = [''Checkpoint #1'']
   \<and> ''Checkpoint #1'' \<noteq> ''Checkpoint #1 - 2023-09-01''"
  by (simp add: createLegend_def createLegendItem_def edgeLabel_def)

subsection \<open>Legend lock and hover\<close>


lemma selector_removeAllActive [simp]:
  "map selector (removeAllActive items) = map selector items"
  by (simp add: removeAllActive_def)

lemma length_removeAllActive [simp]: "length (removeAllActive items) = length items"
  by (simp add: removeAllActive_def)

lemma nth_removeAllActive [simp]:
  "j < length items \<Longrightarrow> removeAllActive items ! j = (items ! j)\<lparr>active := False\<rparr>"
  by (simp add: removeAllActive_def)

lemma selector_list_update [simp]:
  "i < length items \<Longrightarrow> selector x = selector (items ! i) \<Longrightarrow>
   map selector (items[i := x]) = map selector items"
  by (simp add: map_update list_update_same_conv)

lemma distinct_selector_eq:
  "distinct (map selector items) \<Longrightarrow> i < length items \<Longrightarrow> j < length items \<Longrightarrow>
   selector (items ! i) = selector (items ! j) \<Longrightarrow> i = j"
  by (metis distinct_conv_nth length_map nth_map)

lemma legendInv_mouseover: "legendInv s \<Longrightarrow> legendInv (onLegendMouseover i s)"
  by (simp add: legendInv_def onLegendMouseover_def Let_def)

lemma legendInv_mouseout: "legendInv s \<Longrightarrow> legendInv (onLegendMouseout i s)"
  by (simp add: legendInv_def onLegendMouseout_def Let_def)

lemma legendInv_click:
  assumes "legendInv s"
  shows "legendInv (onLegendClick i s)"
proof (cases "i < length (legendDiv s)")
  case False
  with assms show ?thesis by (simp add: onLegendClick_def)
next
  case i: True
  from assms have d: "distinct (map selector (legendDiv s))"
    and a: "\<And>j. j < length (legendDiv s) \<Longrightarrow> active (legendDiv s ! j) \<Longrightarrow>
              currentlyHighlighted s = Some (selector (legendDiv s ! j))"
    by (simp_all add: legendInv_def)
  show ?thesis
  proof (cases "currentlyHighlighted s = Some (selector (legendDiv s ! i))")
    case True
    have "\<not> active ((legendDiv s)[i := (legendDiv s ! i)\<lparr>active := False\<rparr>] ! j)"
      if "j < length (legendDiv s)" for j
    proof (cases "j = i")
      case True
      with i show ?thesis by simp
    next
      case False
      show ?thesis
      proof
        assume "active ((legendDiv s)[i := (legendDiv s ! i)\<lparr>active := False\<rparr>] ! j)"
        with False have "active (legendDiv s ! j)" by simp
        with a that have "currentlyHighlighted s = Some (selector (legendDiv s ! j))" by simp
        with True have "selector (legendDiv s ! i) = selector (legendDiv s ! j)" by simp
        with d i that have "i = j" by (rule distinct_selector_eq)
        with False show False by simp
      qed
    qed
    with True i d show ?thesis
      by (simp add: legendInv_def onLegendClick_def Let_def)
  next
    case False
    show ?thesis
    proof (cases "currentlyHighlighted s")
      case None
      with a have "\<not> active (legendDiv s ! j)" if "j < length (legendDiv s)" for j
        using that by fastforce
      with None False i d show ?thesis
        by (auto simp: legendInv_def onLegendClick_def Let_def nth_list_update)
    next
      case (Some p)
      with False i d show ?thesis
        by (auto simp: legendInv_def onLegendClick_def Let_def nth_list_update)
    qed
  qed
qed

lemma legendInv_step: "legendInv s \<Longrightarrow> legendInv (legendStep s ev)"
  by (cases ev) (simp_all add: legendInv_mouseover legendInv_mouseout legendInv_click)

lemma legendInv_run: "legendInv s \<Longrightarrow> legendInv (legendRun evs s)"
  unfolding legendRun_def by (induction evs arbitrary: s) (simp_all add: legendInv_step)


lemma nodeSelector_inj: "nodeSelector a = nodeSelector b \<Longrightarrow> a = b"
  by (simp add: nodeSelector_def)

lemma edgeSelector_inj: "edgeSelector a = edgeSelector b \<Longrightarrow> a = b"
  by (simp add: edgeSelector_def)

lemma node_edge_selector: "nodeSelector a \<noteq> edgeSelector b"
  by (simp add: nodeSelector_def edgeSelector_def)

lemma distinct_nodeRows:
  assumes "distinct (map name ns)" and "\<forall>n \<in> set ns. hasName n"
  shows "distinct (map selector (map nodeRow ns))"
proof -
  have "inj_on (\<lambda>n. selector (nodeRow n)) (set ns)"
  proof (rule inj_onI)
    fix x y assume x: "x \<in> set ns" and y: "y \<in> set ns"
      and e: "selector (nodeRow x) = selector (nodeRow y)"
    from e have "fieldText (name x) = fieldText (name y)"
      by (simp add: nodeRow_def nodeSelector_inj)
    moreover from assms x y have "hasName x" "hasName y" by auto
    ultimately have "name x = name y"
      by (auto simp: hasName_def fieldText_def split: option.splits)
    with assms(1) x y show "x = y"
      by (meson distinct_map inj_onD)
  qed
  moreover from assms(1) have "distinct ns" by (simp add: distinct_map)
  ultimately show ?thesis by (simp add: distinct_map comp_def)
qed

lemma distinct_edgeRows:
  assumes "distinct (map color es)" and "\<forall>e \<in> set es. hasColor e"
  shows "distinct (map selector (map edgeRow es))"
proof -
  have "inj_on (\<lambda>e. selector (edgeRow e)) (set es)"
  proof (rule inj_onI)
    fix x y assume x: "x \<in> set es" and y: "y \<in> set es"
      and e: "selector (edgeRow x) = selector (edgeRow y)"
    from e have "fieldText (color x) = fieldText (color y)"
      by (simp add: edgeRow_def edgeSelector_inj)
    moreover from assms x y have "hasColor x" "hasColor y" by auto
    ultimately have "color x = color y"
      by (auto simp: hasColor_def fieldText_def split: option.splits)
    with assms(1) x y show "x = y"
      by (meson distinct_map inj_onD)
  qed
  moreover from assms(1) have "distinct es" by (simp add: distinct_map)
  ultimately show ?thesis by (simp add: distinct_map comp_def)
qed

lemma distinct_legendRows: "distinct (map selector (legendRows c))"
proof -
  have n: "distinct (map selector (map nodeRow (firstByKey name (filter hasName (nodes c)))))"
    using firstByKey_keys_subset [of name "filter hasName (nodes c)"]
    by (intro distinct_nodeRows firstByKey_distinct) auto
  have e: "distinct (map selector (map edgeRow (firstByKey color (filter hasColor (edges c)))))"
    using firstByKey_keys_subset [of color "filter hasColor (edges c)"]
    by (intro distinct_edgeRows firstByKey_distinct) auto
  have "selector (nodeRow x) \<noteq> selector (edgeRow y)" for x y
    by (simp add: nodeRow_def edgeRow_def node_edge_selector)
  with n e show ?thesis
    by (auto simp: legendRows_def)
qed

lemma legendRows_inactive: "r \<in> set (legendRows c) \<Longrightarrow> \<not> active r"
  by (auto simp: legendRows_def nodeRow_def edgeRow_def)


lemma createLegend_legendRows: "createLegend c legendContainer = legendRows c"
  by (simp add: createLegend_def legendRows_def Let_def nodesLegend_rows edgesLegend_rows)

lemma legendInv_onReady: "legendInv (snd (onReady s))"
proof -
  have "\<not> active (legendRows (graph s) ! j)" if "j < length (legendRows (graph s))" for j
    using that legendRows_inactive nth_mem by blast
  then show ?thesis
    by (simp add: legendInv_def onReady_def createLegend_legendRows distinct_legendRows)
qed

lemma legendInv_reachable: "legendInv (legendRun evs (snd (onReady s0)))"
  by (rule legendInv_run) (rule legendInv_onReady)

lemma legendInv_one_active:
  assumes "legendInv s" "j < length (legendDiv s)" "k < length (legendDiv s)"
    "active (legendDiv s ! j)" "active (legendDiv s ! k)"
  shows "j = k"
proof -
  from assms have "currentlyHighlighted s = Some (selector (legendDiv s ! j))"
    and "currentlyHighlighted s = Some (selector (legendDiv s ! k))"
    unfolding legendInv_def by blast+
  then have "selector (legendDiv s ! j) = selector (legendDiv s ! k)" by simp
  moreover from assms have "distinct (map selector (legendDiv s))"
    by (simp add: legendInv_def)
  ultimately show ?thesis
    using assms(2,3) by (auto intro: distinct_selector_eq)
qed

lemma click_locked:
  assumes inv: "legendInv s" and i: "i < length (legendDiv s)"
    and cur: "currentlyHighlighted s = Some (selector (legendDiv s ! i))"
  shows "currentlyHighlighted (onLegendClick i s) = None"
    and "graph (onLegendClick i s) = restoreElements (graph s)"
    and "length (legendDiv (onLegendClick i s)) = length (legendDiv s)"
    and "j < length (legendDiv s) \<Longrightarrow> \<not> active (legendDiv (onLegendClick i s) ! j)"
proof -
  show "currentlyHighlighted (onLegendClick i s) = None"
    using i cur by (simp add: onLegendClick_def Let_def)
  show "graph (onLegendClick i s) = restoreElements (graph s)"
    using i cur by (simp add: onLegendClick_def Let_def)
  show "length (legendDiv (onLegendClick i s)) = length (legendDiv s)"
    using i cur by (simp add: onLegendClick_def Let_def)
  show "\<not> active (legendDiv (onLegendClick i s) ! j)" if j: "j < length (legendDiv s)"
  proof
    assume act: "active (legendDiv (onLegendClick i s) ! j)"
    from inv have "legendInv (onLegendClick i s)" by (rule legendInv_click)
    moreover have "j < length (legendDiv (onLegendClick i s))"
      using i cur j by (simp add: onLegendClick_def Let_def)
    ultimately have "currentlyHighlighted (onLegendClick i s)
        = Some (selector (legendDiv (onLegendClick i s) ! j))"
      using act by (simp add: legendInv_def)
    moreover have "currentlyHighlighted (onLegendClick i s) = None"
      using i cur by (simp add: onLegendClick_def Let_def)
    ultimately show False by simp
  qed
qed

lemma click_other:
  assumes i: "i < length (legendDiv s)"
    and cur: "currentlyHighlighted s = Some p" and ne: "p \<noteq> selector (legendDiv s ! i)"
  shows "currentlyHighlighted (onLegendClick i s) = Some (selector (legendDiv s ! i))"
    and "graph (onLegendClick i s)
           = highlightElements (restoreElements (graph s)) (selector (legendDiv s ! i))"
    and "length (legendDiv (onLegendClick i s)) = length (legendDiv s)"
    and "j < length (legendDiv s) \<Longrightarrow> active (legendDiv (onLegendClick i s) ! j) = (j = i)"
  using i cur ne by (auto simp: onLegendClick_def Let_def nth_list_update)

lemma click_unlocked:
  assumes inv: "legendInv s" and i: "i < length (legendDiv s)"
    and cur: "currentlyHighlighted s = None"
  shows "currentlyHighlighted (onLegendClick i s) = Some (selector (legendDiv s ! i))"
    and "graph (onLegendClick i s) = highlightElements (graph s) (selector (legendDiv s ! i))"
    and "length (legendDiv (onLegendClick i s)) = length (legendDiv s)"
    and "j < length (legendDiv s) \<Longrightarrow> active (legendDiv (onLegendClick i s) ! j) = (j = i)"
proof -
  from inv cur have na: "\<not> active (legendDiv s ! j)" if "j < length (legendDiv s)" for j
    using that by (auto simp: legendInv_def)
  show "currentlyHighlighted (onLegendClick i s) = Some (selector (legendDiv s ! i))"
    using i cur by (simp add: onLegendClick_def Let_def)
  show "graph (onLegendClick i s) = highlightElements (graph s) (selector (legendDiv s ! i))"
    using i cur by (simp add: onLegendClick_def Let_def)
  show "length (legendDiv (onLegendClick i s)) = length (legendDiv s)"
    using i cur by (simp add: onLegendClick_def Let_def)
  show "active (legendDiv (onLegendClick i s) ! j) = (j = i)" if "j < length (legendDiv s)"
    using i cur that na [OF that] by (simp add: onLegendClick_def Let_def nth_list_update)
qed

text \<open>
  Claim C3. After the legend has been built and any sequence of legend events (clicks,
  and hovers too), at most one row is active, and an active row is the row of
  \<open>currentlyHighlighted\<close>. A click on the row of the locked selector restores the
  elements, leaves no row active and sets \<open>currentlyHighlighted\<close> to \<open>null\<close>. A click on
  another row while a selector is locked first restores the elements, then highlights
  the clicked row's selector; that row is then the only active one and its selector
  the locked one. With nothing locked, a click highlights and locks without restoring.
\<close>

theorem legend_lock_toggle:
  assumes s: "s = legendRun evs (snd (onReady s0))"
    and i: "i < length (legendDiv s)"
  shows
    "(\<forall>j k. j < length (legendDiv s) \<and> k < length (legendDiv s)
         \<and> active (legendDiv s ! j) \<and> active (legendDiv s ! k) \<longrightarrow> j = k)
     \<and> (\<forall>j. j < length (legendDiv s) \<and> active (legendDiv s ! j)
           \<longrightarrow> currentlyHighlighted s = Some (selector (legendDiv s ! j)))
     \<and> length (legendDiv (onLegendClick i s)) = length (legendDiv s)
     \<and> (currentlyHighlighted s = Some (selector (legendDiv s ! i)) \<longrightarrow>
          currentlyHighlighted (onLegendClick i s) = None
          \<and> graph (onLegendClick i s) = restoreElements (graph s)
          \<and> (\<forall>j < length (legendDiv s). \<not> active (legendDiv (onLegendClick i s) ! j)))
     \<and> (currentlyHighlighted s \<noteq> None \<and> currentlyHighlighted s \<noteq> Some (selector (legendDiv s ! i)) \<longrightarrow>
          currentlyHighlighted (onLegendClick i s) = Some (selector (legendDiv s ! i))
          \<and> graph (onLegendClick i s)
               = highlightElements (restoreElements (graph s)) (selector (legendDiv s ! i))
          \<and> (\<forall>j < length (legendDiv s). active (legendDiv (onLegendClick i s) ! j) = (j = i)))
     \<and> (currentlyHighlighted s = None \<longrightarrow>
          currentlyHighlighted (onLegendClick i s) = Some (selector (legendDiv s ! i))
          \<and> graph (onLegendClick i s) = highlightElements (graph s) (selector (legendDiv s ! i))
          \<and> (\<forall>j < length (legendDiv s). active (legendDiv (onLegendClick i s) ! j) = (j = i)))"
proof -
  from s have inv: "legendInv s" by (simp add: legendInv_reachable)
  have one: "\<forall>j k. j < length (legendDiv s) \<and> k < length (legendDiv s)
         \<and> active (legendDiv s ! j) \<and> active (legendDiv s ! k) \<longrightarrow> j = k"
    using legendInv_one_active [OF inv] by blast
  have cur: "\<forall>j. j < length (legendDiv s) \<and> active (legendDiv s ! j)
           \<longrightarrow> currentlyHighlighted s = Some (selector (legendDiv s ! j))"
    using inv by (simp add: legendInv_def)
  have len: "length (legendDiv (onLegendClick i s)) = length (legendDiv s)"
    using i by (simp add: onLegendClick_def Let_def)
  have a: "currentlyHighlighted s = Some (selector (legendDiv s ! i)) \<longrightarrow>
          currentlyHighlighted (onLegendClick i s) = None
          \<and> graph (onLegendClick i s) = restoreElements (graph s)
          \<and> (\<forall>j < length (legendDiv s). \<not> active (legendDiv (onLegendClick i s) ! j))"
    using click_locked [OF inv i] by blast
  have b: "currentlyHighlighted s \<noteq> None \<and> currentlyHighlighted s \<noteq> Some (selector (legendDiv s ! i)) \<longrightarrow>
          currentlyHighlighted (onLegendClick i s) = Some (selector (legendDiv s ! i))
          \<and> graph (onLegendClick i s)
               = highlightElements (restoreElements (graph s)) (selector (legendDiv s ! i))
          \<and> (\<forall>j < length (legendDiv s). active (legendDiv (onLegendClick i s) ! j) = (j = i))"
    using click_other [OF i] by (cases "currentlyHighlighted s") auto
  have c: "currentlyHighlighted s = None \<longrightarrow>
          currentlyHighlighted (onLegendClick i s) = Some (selector (legendDiv s ! i))
          \<and> graph (onLegendClick i s) = highlightElements (graph s) (selector (legendDiv s ! i))
          \<and> (\<forall>j < length (legendDiv s). active (legendDiv (onLegendClick i s) ! j) = (j = i))"
    using click_unlocked [OF inv i] by blast
  from one cur len a b c show ?thesis by blast
qed


lemma demo_legend:
  "legendDiv (snd (onReady (initialState demoGraph))) =
     [\<lparr>selector = nodeSelector ''Alice'', symbol = BackgroundColor ''#ADD8E6'', legendText = ''Alice'', active = False\<rparr>,
      \<lparr>selector = nodeSelector ''Bob'', symbol = BackgroundColor ''#FFFFFF'', legendText = ''Bob'', active = False\<rparr>,
      \<lparr>selector = edgeSelector ''#555'', symbol = BorderTop3pxSolid ''#555'', legendText = ''Path of #555'', active = False\<rparr>,
      \<lparr>selector = edgeSelector ''#ff0000'', symbol = BorderTop3pxSolid ''#ff0000'', legendText = ''fork'', active = False\<rparr>]"
  by (simp add: onReady_def initialState_def demoGraph_def demoNodes_def demoEdges_def
        createLegend_def createLegendItem_def edgeLabel_def templateStr_def)

lemma demo_after_click:
  "legendRun [Click 0] (snd (onReady (initialState demoGraph))) =
     (snd (onReady (initialState demoGraph)))
       \<lparr>graph := highlightElements demoGraph (nodeSelector ''Alice''),
        legendDiv := (legendDiv (snd (onReady (initialState demoGraph))))
           [0 := \<lparr>selector = nodeSelector ''Alice'', symbol = BackgroundColor ''#ADD8E6'', legendText = ''Alice'', active = True\<rparr>],
        currentlyHighlighted := Some (nodeSelector ''Alice'')\<rparr>"
  by (simp add: legendRun_def onLegendClick_def Let_def demo_legend)
     (simp add: onReady_def initialState_def)

theorem legend_lock_toggle_witness:
  "currentlyHighlighted (onLegendClick 0 (legendRun [Click 0] (snd (onReady (initialState demoGraph))))) = None
   \<and> styleCalls (graph (onLegendClick 0 (legendRun [Click 0] (snd (onReady (initialState demoGraph))))))
       = [HighlightElements (nodeSelector ''Alice''), RestoreElements]
   \<and> currentlyHighlighted (onLegendClick 1 (legendRun [Click 0] (snd (onReady (initialState demoGraph)))))
       = Some (nodeSelector ''Bob'')
   \<and> styleCalls (graph (onLegendClick 1 (legendRun [Click 0] (snd (onReady (initialState demoGraph))))))
       = [HighlightElements (nodeSelector ''Alice''), RestoreElements, HighlightElements (nodeSelector ''Bob'')]"
proof -
  let ?s = "legendRun [Click 0] (snd (onReady (initialState demoGraph)))"
  have sel0: "selector (legendDiv ?s ! 0) = nodeSelector ''Alice''"
    and sel1: "selector (legendDiv ?s ! 1) = nodeSelector ''Bob''"
    and cur: "currentlyHighlighted ?s = Some (nodeSelector ''Alice'')"
    and g0: "graph ?s = highlightElements demoGraph (nodeSelector ''Alice'')"
    and len0: "0 < length (legendDiv ?s)" and len1: "1 < length (legendDiv ?s)"
    by (simp_all add: demo_after_click demo_legend)
  have g: "styleCalls (graph ?s) = [HighlightElements (nodeSelector ''Alice'')]"
    unfolding g0 by (simp add: highlightElements_def demoGraph_def)
  have ne: "nodeSelector ''Alice'' \<noteq> nodeSelector ''Bob''"
    by (simp add: nodeSelector_def)
  have a: "currentlyHighlighted (onLegendClick 0 ?s) = None
      \<and> graph (onLegendClick 0 ?s) = restoreElements (graph ?s)"
    using legend_lock_toggle [OF refl len0] cur sel0 by simp
  have b: "currentlyHighlighted (onLegendClick 1 ?s) = Some (nodeSelector ''Bob'')
      \<and> graph (onLegendClick 1 ?s) = highlightElements (restoreElements (graph ?s)) (nodeSelector ''Bob'')"
    using legend_lock_toggle [OF refl len1] cur sel1 ne by simp
  from a b show ?thesis
    by (simp add: g highlightElements_def restoreElements_def)
qed


lemma legendInv_not_locked_inactive:
  "legendInv s \<Longrightarrow> i < length (legendDiv s) \<Longrightarrow>
   currentlyHighlighted s \<noteq> Some (selector (legendDiv s ! i)) \<Longrightarrow> \<not> active (legendDiv s ! i)"
  unfolding legendInv_def by blast

text \<open>
  Claim C6. After the legend has been built and any sequence of legend events: on a row
  whose selector is not the locked one, the pointer coming over it highlights the row's
  selector and the pointer leaving it restores the elements; on the row of the locked
  selector both events leave the whole state as it is.
\<close>

theorem legend_hover_preview:
  assumes s: "s = legendRun evs (snd (onReady s0))"
    and i: "i < length (legendDiv s)"
  shows
    "(currentlyHighlighted s \<noteq> Some (selector (legendDiv s ! i)) \<longrightarrow>
        onLegendMouseover i s = s\<lparr>graph := highlightElements (graph s) (selector (legendDiv s ! i))\<rparr>
        \<and> onLegendMouseout i s = s\<lparr>graph := restoreElements (graph s)\<rparr>
        \<and> onLegendMouseout i (onLegendMouseover i s)
            = s\<lparr>graph := restoreElements (highlightElements (graph s) (selector (legendDiv s ! i)))\<rparr>)
     \<and> (currentlyHighlighted s = Some (selector (legendDiv s ! i)) \<longrightarrow>
        onLegendMouseover i s = s \<and> onLegendMouseout i s = s)"
proof -
  from s have inv: "legendInv s" by (simp add: legendInv_reachable)
  have locked: "currentlyHighlighted s = Some (selector (legendDiv s ! i)) \<longrightarrow>
        onLegendMouseover i s = s \<and> onLegendMouseout i s = s"
    by (simp add: onLegendMouseover_def onLegendMouseout_def Let_def)
  have free: "onLegendMouseover i s = s\<lparr>graph := highlightElements (graph s) (selector (legendDiv s ! i))\<rparr>
        \<and> onLegendMouseout i s = s\<lparr>graph := restoreElements (graph s)\<rparr>
        \<and> onLegendMouseout i (onLegendMouseover i s)
            = s\<lparr>graph := restoreElements (highlightElements (graph s) (selector (legendDiv s ! i)))\<rparr>"
    if c: "currentlyHighlighted s \<noteq> Some (selector (legendDiv s ! i))"
  proof -
    from inv i c have na: "\<not> active (legendDiv s ! i)"
      by (rule legendInv_not_locked_inactive)
    have over: "onLegendMouseover i s
        = s\<lparr>graph := highlightElements (graph s) (selector (legendDiv s ! i))\<rparr>"
      using i c na by (simp add: onLegendMouseover_def Let_def)
    have out: "onLegendMouseout i s = s\<lparr>graph := restoreElements (graph s)\<rparr>"
      using i c na by (simp add: onLegendMouseout_def Let_def)
    have "onLegendMouseout i (onLegendMouseover i s)
        = s\<lparr>graph := restoreElements (highlightElements (graph s) (selector (legendDiv s ! i)))\<rparr>"
      unfolding over using i c na by (simp add: onLegendMouseout_def Let_def)
    with over out show ?thesis by simp
  qed
  from locked free show ?thesis by blast
qed

theorem legend_hover_preview_witness:
  "styleCalls (graph (onLegendMouseout 1 (onLegendMouseover 1
        (legendRun [Click 0] (snd (onReady (initialState demoGraph)))))))
     = [HighlightElements (nodeSelector ''Alice''), HighlightElements (nodeSelector ''Bob''),
        RestoreElements]
   \<and> onLegendMouseover 0 (legendRun [Click 0] (snd (onReady (initialState demoGraph))))
       = legendRun [Click 0] (snd (onReady (initialState demoGraph)))
   \<and> onLegendMouseout 0 (legendRun [Click 0] (snd (onReady (initialState demoGraph))))
       = legendRun [Click 0] (snd (onReady (initialState demoGraph)))"
proof -
  let ?s = "legendRun [Click 0] (snd (onReady (initialState demoGraph)))"
  have sel0: "selector (legendDiv ?s ! 0) = nodeSelector ''Alice''"
    and sel1: "selector (legendDiv ?s ! 1) = nodeSelector ''Bob''"
    and cur: "currentlyHighlighted ?s = Some (nodeSelector ''Alice'')"
    and g0: "graph ?s = highlightElements demoGraph (nodeSelector ''Alice'')"
    and len0: "0 < length (legendDiv ?s)" and len1: "1 < length (legendDiv ?s)"
    by (simp_all add: demo_after_click demo_legend)
  have g: "styleCalls (graph ?s) = [HighlightElements (nodeSelector ''Alice'')]"
    unfolding g0 by (simp add: highlightElements_def demoGraph_def)
  have ne: "nodeSelector ''Alice'' \<noteq> nodeSelector ''Bob''"
    by (simp add: nodeSelector_def)
  have p0: "currentlyHighlighted ?s = Some (selector (legendDiv ?s ! 0))"
    using cur sel0 by simp
  have p1: "currentlyHighlighted ?s \<noteq> Some (selector (legendDiv ?s ! 1))"
    using cur sel1 ne by simp
  have a: "onLegendMouseover 0 ?s = ?s \<and> onLegendMouseout 0 ?s = ?s"
    using legend_hover_preview [OF refl len0] p0 by blast
  have "onLegendMouseout 1 (onLegendMouseover 1 ?s)
      = ?s\<lparr>graph := restoreElements (highlightElements (graph ?s) (selector (legendDiv ?s ! 1)))\<rparr>"
    using legend_hover_preview [OF refl len1] p1 by blast
  then have b: "onLegendMouseout 1 (onLegendMouseover 1 ?s)
      = ?s\<lparr>graph := restoreElements (highlightElements (graph ?s) (nodeSelector ''Bob''))\<rparr>"
    by (simp only: sel1)
  have "styleCalls (graph (onLegendMouseout 1 (onLegendMouseover 1 ?s)))
      = [HighlightElements (nodeSelector ''Alice''), HighlightElements (nodeSelector ''Bob''),
         RestoreElements]"
    unfolding b by (simp add: g highlightElements_def restoreElements_def)
  with a show ?thesis by simp
qed

subsection \<open>Rendering without a container\<close>

lemma render_with_container:
  "renderCytoscapeDiagram setupStylesAndData True nodeData s =
     \<lparr>consoleError = [],
      plugins = [''cytoscapeDagre'', ''cytoscapeContextMenus'', ''cytoscapePopper''],
      diagram = Some \<lparr>elements = nodeData, style = setupStylesAndData nodeData, cy_layout = layout s\<rparr>,
      listeners = setupEventHandlers nodeData\<rparr>"
  by (simp add: renderCytoscapeDiagram_def initializeCytoscape_def)

text \<open>
  Claim C7. When \<open>myDiagramDiv\<close> is not in the document, \<open>renderCytoscapeDiagram\<close>
  writes one message with \<open>console.error\<close> and does nothing else: no plugin is
  registered, no Cytoscape instance is constructed and no listener is attached.
\<close>

theorem render_without_container:
  "\<not> myDiagramDiv \<Longrightarrow>
   renderCytoscapeDiagram setupStylesAndData myDiagramDiv nodeData s =
     \<lparr>consoleError = [missingContainerMessage], plugins = [], diagram = None, listeners = []\<rparr>"
  by (simp add: renderCytoscapeDiagram_def initializeCytoscape_def)

theorem render_without_container_witness:
  "renderCytoscapeDiagram (\<lambda>d. length d) False
      (map NodeElem demoNodes @ map EdgeElem demoEdges) (initialState demoGraph)
     = \<lparr>consoleError = [missingContainerMessage], plugins = [], diagram = None, listeners = []\<rparr>
   \<and> diagram (renderCytoscapeDiagram (\<lambda>d. length d) True
      (map NodeElem demoNodes @ map EdgeElem demoEdges) (initialState demoGraph)) \<noteq> None"
  using render_without_container [of False "\<lambda>d. length d"
          "map NodeElem demoNodes @ map EdgeElem demoEdges" "initialState demoGraph"]
  by (simp add: render_with_container)

subsection \<open>Rebuild decision\<close>


lemma update_false_iff:
  "fst (updateTimelineDataIfNeeded env context s) = Inr False
     \<longleftrightarrow> (\<exists>lc. lastContext s = Some lc \<and> characterId lc = characterId context)"
  by (auto simp: updateTimelineDataIfNeeded_def timelineUpdated_def Let_def
           split: option.splits)

lemma update_unchanged_when_false:
  "fst (updateTimelineDataIfNeeded env context s) = Inr False
     \<Longrightarrow> snd (updateTimelineDataIfNeeded env context s) = s"
  by (auto simp: updateTimelineDataIfNeeded_def timelineUpdated_def Let_def
           split: option.splits if_splits)

lemma update_true_when_changed:
  assumes "lookupsSucceed context"
    and "lastContext s = None \<or> (\<exists>lc. lastContext s = Some lc \<and> characterId lc \<noteq> characterId context)"
  shows "fst (updateTimelineDataIfNeeded env context s) = Inr True"
    and "lastContext (snd (updateTimelineDataIfNeeded env context s)) = Some context"
  using assms
  by (auto simp: updateTimelineDataIfNeeded_def timelineUpdated_def lookupsSucceed_def Let_def
           split: option.splits if_splits)

lemma update_twice:
  assumes "lookupsSucceed context"
  shows "fst (updateTimelineDataIfNeeded env context
                (snd (updateTimelineDataIfNeeded env context s))) = Inr False"
proof (cases "fst (updateTimelineDataIfNeeded env context s) = Inr False")
  case True
  then have "snd (updateTimelineDataIfNeeded env context s) = s"
    by (rule update_unchanged_when_false)
  with True show ?thesis by simp
next
  case False
  then have "lastContext s = None \<or> (\<exists>lc. lastContext s = Some lc \<and> characterId lc \<noteq> characterId context)"
    by (cases "lastContext s") (auto simp: update_false_iff)
  with assms have "lastContext (snd (updateTimelineDataIfNeeded env context s)) = Some context"
    by (rule update_true_when_changed)
  then show ?thesis by (simp add: update_false_iff)
qed

text \<open>
  Claim C2, amended. On a context whose look-ups succeed, \<open>updateTimelineDataIfNeeded\<close>
  returns true when no context is stored: before the first build, and also after a
  settings input has cleared \<open>lastContext\<close>. When a context is stored and at least one of
  the stored and the incoming context has a character, it returns true if and only if
  the two \<open>characterId\<close>s differ. Called twice in a row with the same context, it
  returns false the second time.
\<close>

theorem rebuild_decision:
  assumes "lookupsSucceed context"
  shows
    "(lastContext s = None \<longrightarrow> fst (updateTimelineDataIfNeeded env context s) = Inr True)
     \<and> (\<forall>lc. lastContext s = Some lc \<and> (truthy (characterId lc) \<or> truthy (characterId context)) \<longrightarrow>
           fst (updateTimelineDataIfNeeded env context s) = Inr (characterId lc \<noteq> characterId context))
     \<and> fst (updateTimelineDataIfNeeded env context
              (snd (updateTimelineDataIfNeeded env context s))) = Inr False"
proof (intro conjI allI impI)
  assume "lastContext s = None"
  with assms show "fst (updateTimelineDataIfNeeded env context s) = Inr True"
    by (simp add: update_true_when_changed)
next
  fix lc
  assume a: "lastContext s = Some lc \<and> (truthy (characterId lc) \<or> truthy (characterId context))"
  show "fst (updateTimelineDataIfNeeded env context s) = Inr (characterId lc \<noteq> characterId context)"
  proof (cases "characterId lc = characterId context")
    case True
    with a show ?thesis by (simp add: update_false_iff)
  next
    case False
    with a assms show ?thesis by (simp add: update_true_when_changed)
  qed
next
  from assms show "fst (updateTimelineDataIfNeeded env context
              (snd (updateTimelineDataIfNeeded env context s))) = Inr False"
    by (rule update_twice)
qed


lemma demo_first_build:
  "updateTimelineDataIfNeeded demoCollaborators (demoContext (JStr ''3'')) (initialState demoGraph)
     = (Inr True,
        (initialState demoGraph)
          \<lparr>lastTimelineData := Some (map NodeElem demoNodes @ map EdgeElem demoEdges),
           lastContext := Some (demoContext (JStr ''3'')),
           layout := Some (dagreLayout (timeline (initialState demoGraph)))\<rparr>)"
  by (simp add: updateTimelineDataIfNeeded_def timelineUpdated_def initialState_def
        demoContext_def demoCollaborators_def)

theorem rebuild_decision_witness:
  "fst (updateTimelineDataIfNeeded demoCollaborators (demoContext (JStr ''3'')) (initialState demoGraph))
     = Inr True
   \<and> fst (updateTimelineDataIfNeeded demoCollaborators (demoContext (JStr ''3''))
        (snd (updateTimelineDataIfNeeded demoCollaborators (demoContext (JStr ''3''))
               (initialState demoGraph)))) = Inr False
   \<and> fst (updateTimelineDataIfNeeded demoCollaborators (demoContext (JStr ''4''))
        (snd (updateTimelineDataIfNeeded demoCollaborators (demoContext (JStr ''3''))
               (initialState demoGraph)))) = Inr True"
proof -
  have l3: "lookupsSucceed (demoContext (JStr ''3''))" and l4: "lookupsSucceed (demoContext (JStr ''4''))"
    by (simp_all add: lookupsSucceed_def demoContext_def)
  have n: "lastContext (initialState demoGraph) = None"
    by (simp add: initialState_def)
  have b: "lastContext (snd (updateTimelineDataIfNeeded demoCollaborators (demoContext (JStr ''3''))
               (initialState demoGraph))) = Some (demoContext (JStr ''3''))"
    by (simp add: demo_first_build)
  have t: "truthy (characterId (demoContext (JStr ''3'')))"
    and d: "characterId (demoContext (JStr ''3'')) \<noteq> characterId (demoContext (JStr ''4''))"
    by (simp_all add: demoContext_def)
  from rebuild_decision [OF l3, of "initialState demoGraph" demoCollaborators] n
  have "fst (updateTimelineDataIfNeeded demoCollaborators (demoContext (JStr ''3'')) (initialState demoGraph))
     = Inr True
   \<and> fst (updateTimelineDataIfNeeded demoCollaborators (demoContext (JStr ''3''))
        (snd (updateTimelineDataIfNeeded demoCollaborators (demoContext (JStr ''3''))
               (initialState demoGraph)))) = Inr False"
    by blast
  moreover from rebuild_decision [OF l4,
      of "snd (updateTimelineDataIfNeeded demoCollaborators (demoContext (JStr ''3'')) (initialState demoGraph))"
         demoCollaborators] b t d
  have "fst (updateTimelineDataIfNeeded demoCollaborators (demoContext (JStr ''4''))
        (snd (updateTimelineDataIfNeeded demoCollaborators (demoContext (JStr ''3''))
               (initialState demoGraph)))) = Inr True"
    by simp
  ultimately show ?thesis by blast
qed

text \<open>
  With "if and only if the store has never been built or the context identifier
  differs" the statement fails: the timeline is built for a character, a settings
  slider fires \<open>input\<close>, and the next call for the same character returns true again,
  with the data of the first build still stored.
\<close>

theorem rebuild_after_settings_change_counterexample:
  "fst (updateTimelineDataIfNeeded demoCollaborators (demoContext (JStr ''3'')) (initialState demoGraph))
     = Inr True
   \<and> lastTimelineData
        (snd (onInputChange (\<lambda>str. Some 25) demoSlider ''nodeWidth'' JNull
           (snd (updateTimelineDataIfNeeded demoCollaborators (demoContext (JStr ''3''))
                  (initialState demoGraph))))) \<noteq> None
   \<and> fst (updateTimelineDataIfNeeded demoCollaborators (demoContext (JStr ''3''))
        (snd (onInputChange (\<lambda>str. Some 25) demoSlider ''nodeWidth'' JNull
           (snd (updateTimelineDataIfNeeded demoCollaborators (demoContext (JStr ''3''))
                  (initialState demoGraph)))))) = Inr True"
  by (simp add: demo_first_build onInputChange_def Let_def)
     (simp add: updateTimelineDataIfNeeded_def timelineUpdated_def demoContext_def)

text \<open>
  What the comparison of \<open>characterId\<close> alone means for group chats, which have none:
  once the timeline of one group is built, a call for another group returns false and
  keeps the first group's data.
\<close>

lemma update_between_groups:
  "lastContext s = Some demoGroupContext \<Longrightarrow>
   updateTimelineDataIfNeeded env (demoGroupContext\<lparr>groupId := JStr ''g2''\<rparr>) s = (Inr False, s)"
  by (simp add: updateTimelineDataIfNeeded_def demoGroupContext_def)

lemma lastContext_onInputChange:
  "lastContext (snd (onInputChange num el settingName rgbaValue s)) = None"
  by (simp add: onInputChange_def Let_def)

lemma update_from_None_character:
  "lastContext s = None \<Longrightarrow> truthy (characterId context) \<Longrightarrow>
   characters context (characterId context) = Some avatar \<Longrightarrow>
   lastTimelineData (snd (updateTimelineDataIfNeeded env context s))
     = Some (prepareData env (Fetched (fetchData env avatar)) False)"
  by (simp add: updateTimelineDataIfNeeded_def timelineUpdated_def)

lemma update_from_None_group:
  "lastContext s = None \<Longrightarrow> \<not> truthy (characterId context) \<Longrightarrow> truthy (groupId context) \<Longrightarrow>
   find (\<lambda>g. group_id g = groupId context) (groups context) = Some g \<Longrightarrow>
   lastTimelineData (snd (updateTimelineDataIfNeeded env context s))
     = Some (prepareData env (GroupFiles (enumerate 0 (chats g))) True)"
  by (simp add: updateTimelineDataIfNeeded_def timelineUpdated_def Let_def)

text \<open>
  Claim C10. \<open>onInputChange\<close>, for any control, setting name and value, leaves
  \<open>lastContext\<close> null. The next \<open>updateTimelineDataIfNeeded\<close> therefore returns true on
  every context whose look-ups succeed, whatever was stored before, and stores the data
  prepared anew: from \<open>fetchData\<close> of the character's avatar, or from the chat files of
  the group.
\<close>

theorem input_change_forces_rebuild:
  "lastContext (snd (onInputChange num el settingName rgbaValue s)) = None
   \<and> (lookupsSucceed context \<longrightarrow>
        fst (updateTimelineDataIfNeeded env context
               (snd (onInputChange num el settingName rgbaValue s))) = Inr True)
   \<and> (\<forall>avatar. truthy (characterId context) \<and> characters context (characterId context) = Some avatar \<longrightarrow>
        lastTimelineData (snd (updateTimelineDataIfNeeded env context
               (snd (onInputChange num el settingName rgbaValue s))))
          = Some (prepareData env (Fetched (fetchData env avatar)) False))
   \<and> (\<forall>g. \<not> truthy (characterId context) \<and> truthy (groupId context)
           \<and> find (\<lambda>g. group_id g = groupId context) (groups context) = Some g \<longrightarrow>
        lastTimelineData (snd (updateTimelineDataIfNeeded env context
               (snd (onInputChange num el settingName rgbaValue s))))
          = Some (prepareData env (GroupFiles (enumerate 0 (chats g))) True))"
  using lastContext_onInputChange [of num el settingName rgbaValue s]
  by (auto simp: update_true_when_changed update_from_None_character update_from_None_group)

theorem input_change_forces_rebuild_witness:
  "lastContext (snd (onInputChange (\<lambda>str. Some 25) demoSlider ''nodeWidth'' JNull
        (snd (updateTimelineDataIfNeeded demoCollaborators (demoContext (JStr ''3''))
               (initialState demoGraph))))) = None
   \<and> fst (updateTimelineDataIfNeeded demoCollaborators (demoContext (JStr ''3''))
        (snd (onInputChange (\<lambda>str. Some 25) demoSlider ''nodeWidth'' JNull
           (snd (updateTimelineDataIfNeeded demoCollaborators (demoContext (JStr ''3''))
                  (initialState demoGraph)))))) = Inr True
   \<and> lastTimelineData (snd (updateTimelineDataIfNeeded demoCollaborators demoGroupContext
        (snd (onInputChange (\<lambda>str. Some 25) demoSlider ''nodeWidth'' JNull
           (snd (updateTimelineDataIfNeeded demoCollaborators (demoContext (JStr ''3''))
                  (initialState demoGraph)))))))
       = Some (prepareData demoCollaborators (GroupFiles [(0, ''chat a''), (1, ''chat b'')]) True)"
proof -
  let ?s = "snd (updateTimelineDataIfNeeded demoCollaborators (demoContext (JStr ''3''))
                  (initialState demoGraph))"
  have l3: "lookupsSucceed (demoContext (JStr ''3''))"
    by (simp add: lookupsSucceed_def demoContext_def)
  have g: "\<not> truthy (characterId demoGroupContext) \<and> truthy (groupId demoGroupContext)
      \<and> find (\<lambda>g. group_id g = groupId demoGroupContext) (groups demoGroupContext)
          = Some \<lparr>group_id = JStr ''g1'', chats = [''chat a'', ''chat b'']\<rparr>"
    by (simp add: demoGroupContext_def)
  from input_change_forces_rebuild
         [of "\<lambda>str. Some 25" demoSlider "''nodeWidth''" JNull ?s "demoContext (JStr ''3'')" demoCollaborators] l3
  have a: "lastContext (snd (onInputChange (\<lambda>str. Some 25) demoSlider ''nodeWidth'' JNull ?s)) = None
     \<and> fst (updateTimelineDataIfNeeded demoCollaborators (demoContext (JStr ''3''))
          (snd (onInputChange (\<lambda>str. Some 25) demoSlider ''nodeWidth'' JNull ?s))) = Inr True"
    by blast
  from input_change_forces_rebuild
         [of "\<lambda>str. Some 25" demoSlider "''nodeWidth''" JNull ?s demoGroupContext demoCollaborators] g
  have "lastTimelineData (snd (updateTimelineDataIfNeeded demoCollaborators demoGroupContext
          (snd (onInputChange (\<lambda>str. Some 25) demoSlider ''nodeWidth'' JNull ?s))))
       = Some (prepareData demoCollaborators
            (GroupFiles (enumerate 0 (chats \<lparr>group_id = JStr ''g1'', chats = [''chat a'', ''chat b'']\<rparr>))) True)"
    by blast
  then have "lastTimelineData (snd (updateTimelineDataIfNeeded demoCollaborators demoGroupContext
          (snd (onInputChange (\<lambda>str. Some 25) demoSlider ''nodeWidth'' JNull ?s))))
       = Some (prepareData demoCollaborators (GroupFiles [(0, ''chat a''), (1, ''chat b'')]) True)"
    by simp
  with a show ?thesis by blast
qed

subsection \<open>Hover tooltips\<close>


lemma hoverRun_append: "hoverRun (xs @ ys) h = hoverRun ys (hoverRun xs h)"
  by (simp add: hoverRun_def)

lemma hoverRun_Cons: "hoverRun (e # es) h = hoverRun es (hoverStep h e)"
  by (simp add: hoverRun_def)

lemma hoverRun_Nil: "hoverRun [] h = h"
  by (simp add: hoverRun_def)

lemma issued_step: "issued h \<Longrightarrow> issued (hoverStep h e)"
proof (cases e)
  case (MouseoverNode n)
  assume "issued h"
  then show ?thesis
    by (auto simp: MouseoverNode issued_def onNodeMouseover_def setTimeout_def Let_def)
next
  case (MouseoutNode n)
  assume "issued h"
  then show ?thesis
    by (auto simp: MouseoutNode issued_def onNodeMouseout_def clearTimeout_def Let_def
             split: option.splits)
next
  case (TimerFires t)
  assume i: "issued h"
  show ?thesis
  proof (cases "map_of (pendingTimers h) t")
    case None
    with i show ?thesis by (simp add: TimerFires onTimerFires_def)
  next
    case (Some n)
    then have "(t, n) \<in> set (pendingTimers h)" by (rule map_of_SomeD)
    with i have "t \<le> timersCreated h" by (auto simp: issued_def)
    with i Some show ?thesis
      by (auto simp: TimerFires issued_def onTimerFires_def clearTimeout_def)
  qed
qed

lemma issued_run: "issued h \<Longrightarrow> issued (hoverRun es h)"
  by (induction es arbitrary: h) (simp_all add: hoverRun_Nil hoverRun_Cons issued_step)

lemma issued_initial: "issued initialHover"
  by (simp add: issued_def initialHover_def)

lemma armed_after_mouseover:
  "issued h \<Longrightarrow> armed (Suc (timersCreated h)) (onNodeMouseover n h)"
  by (force simp: armed_def issued_def onNodeMouseover_def setTimeout_def Let_def)

lemma armed_step:
  "armed t h \<Longrightarrow> \<not> isMouseover e \<Longrightarrow> e \<noteq> TimerFires t \<Longrightarrow> armed t (hoverStep h e)"
proof (cases e)
  case (MouseoverNode n)
  assume "\<not> isMouseover e"
  with MouseoverNode show ?thesis by simp
next
  case (MouseoutNode n)
  assume "armed t h"
  then show ?thesis
    by (auto simp: MouseoutNode armed_def onNodeMouseout_def clearTimeout_def Let_def
             split: option.splits)
next
  case (TimerFires t')
  assume "armed t h" "e \<noteq> TimerFires t"
  then show ?thesis
    by (auto simp: TimerFires armed_def onTimerFires_def clearTimeout_def split: option.splits)
qed

lemma armed_run:
  "armed t h \<Longrightarrow> \<forall>e \<in> set es. \<not> isMouseover e \<and> e \<noteq> TimerFires t \<Longrightarrow> armed t (hoverRun es h)"
  by (induction es arbitrary: h) (simp_all add: hoverRun_Nil hoverRun_Cons armed_step)

lemma cancelled_after_mouseout: "armed t h \<Longrightarrow> cancelled t (onNodeMouseout n h)"
  by (auto simp: armed_def cancelled_def onNodeMouseout_def clearTimeout_def Let_def
           split: option.splits)

lemma cancelled_step: "cancelled t h \<Longrightarrow> cancelled t (hoverStep h e)"
proof (cases e)
  case (MouseoverNode n)
  assume "cancelled t h"
  then show ?thesis
    by (auto simp: MouseoverNode cancelled_def onNodeMouseover_def setTimeout_def Let_def)
next
  case (MouseoutNode n)
  assume "cancelled t h"
  then show ?thesis
    by (auto simp: MouseoutNode cancelled_def onNodeMouseout_def clearTimeout_def Let_def
             split: option.splits)
next
  case (TimerFires t')
  assume c: "cancelled t h"
  show ?thesis
  proof (cases "map_of (pendingTimers h) t'")
    case None
    with c show ?thesis by (simp add: TimerFires onTimerFires_def)
  next
    case (Some n)
    from c have "map_of (pendingTimers h) t = None"
      by (simp add: cancelled_def map_of_eq_None_iff)
    with Some have "t' \<noteq> t" by auto
    with c Some show ?thesis
      by (auto simp: TimerFires cancelled_def onTimerFires_def clearTimeout_def)
  qed
qed

lemma cancelled_run: "cancelled t h \<Longrightarrow> cancelled t (hoverRun es h)"
  by (induction es arbitrary: h) (simp_all add: hoverRun_Nil hoverRun_Cons cancelled_step)

text \<open>
  Claim C9. From any state the hover listeners can reach: a node is hovered, which starts
  a timer; before that timer fires, and with no other node hovered in between, the
  pointer leaves the node. Then the timer is no longer pending, and whatever happens
  later its callback never runs: the tooltip of that hover never appears.
\<close>

theorem tooltip_cancelled_by_mouseout:
  assumes h: "h = hoverRun before initialHover"
    and quiet: "\<forall>e \<in> set between. \<not> isMouseover e \<and> e \<noteq> TimerFires (Suc (timersCreated h))"
  shows "Suc (timersCreated h) \<notin> fst ` set (pendingTimers
            (hoverRun (MouseoverNode n # between @ [MouseoutNode n]) h))
         \<and> Suc (timersCreated h) \<notin> fst ` set (appeared
            (hoverRun (MouseoverNode n # between @ [MouseoutNode n] @ later) h))"
proof -
  let ?t = "Suc (timersCreated h)"
  from h have "issued h" by (simp add: issued_run issued_initial)
  then have "armed ?t (onNodeMouseover n h)" by (rule armed_after_mouseover)
  with quiet have "armed ?t (hoverRun between (onNodeMouseover n h))" by (simp add: armed_run)
  then have c: "cancelled ?t (onNodeMouseout n (hoverRun between (onNodeMouseover n h)))"
    by (rule cancelled_after_mouseout)
  then have "cancelled ?t (hoverRun later (onNodeMouseout n (hoverRun between (onNodeMouseover n h))))"
    by (rule cancelled_run)
  with c show ?thesis
    by (simp add: cancelled_def hoverRun_Cons hoverRun_append hoverRun_Nil)
qed


lemma demo_tooltip_appears:
  "appeared (hoverRun [MouseoverNode (demoNodes ! 0), TimerFires 1] initialHover) = [(1, ''n0'')]"
  by (simp add: hoverRun_def onNodeMouseover_def setTimeout_def onTimerFires_def clearTimeout_def
        initialHover_def demoNodes_def Let_def)

theorem tooltip_cancelled_by_mouseout_witness:
  "1 \<notin> fst ` set (pendingTimers
      (hoverRun [MouseoverNode (demoNodes ! 0), TimerFires 2, MouseoutNode (demoNodes ! 0)]
         initialHover))
   \<and> 1 \<notin> fst ` set (appeared
      (hoverRun [MouseoverNode (demoNodes ! 0), TimerFires 2, MouseoutNode (demoNodes ! 0),
                 TimerFires 1, MouseoverNode (demoNodes ! 1), TimerFires 2]
         initialHover))
   \<and> appeared (hoverRun [MouseoverNode (demoNodes ! 0), TimerFires 1] initialHover) = [(1, ''n0'')]"
proof -
  have i: "initialHover = hoverRun [] initialHover" by (simp add: hoverRun_def)
  have t: "Suc (timersCreated initialHover) = 1" by (simp add: initialHover_def)
  have q: "\<forall>e \<in> set [TimerFires 2].
             \<not> isMouseover e \<and> e \<noteq> TimerFires (Suc (timersCreated initialHover))"
    unfolding t by simp
  from tooltip_cancelled_by_mouseout [OF i q, of "demoNodes ! 0"
         "[TimerFires 1, MouseoverNode (demoNodes ! 1), TimerFires 2]"]
  have "1 \<notin> fst ` set (pendingTimers
      (hoverRun [MouseoverNode (demoNodes ! 0), TimerFires 2, MouseoutNode (demoNodes ! 0)]
         initialHover))
   \<and> 1 \<notin> fst ` set (appeared
      (hoverRun [MouseoverNode (demoNodes ! 0), TimerFires 2, MouseoutNode (demoNodes ! 0),
                 TimerFires 1, MouseoverNode (demoNodes ! 1), TimerFires 2]
         initialHover))"
    unfolding t by simp
  with demo_tooltip_appears show ?thesis by blast
qed

subsection \<open>Search\<close>


lemma lowerChar_idem: "lowerChar (lowerChar c) = lowerChar c"
proof -
  have "(of_char c :: nat) < 256" by simp
  then show ?thesis
    by (auto simp: lowerChar_def Let_def)
qed

lemma toLowerCase_idem: "toLowerCase (toLowerCase str) = toLowerCase str"
  by (simp add: toLowerCase_def lowerChar_idem)

lemma toLowerCase_Nil_iff: "toLowerCase v = [] \<longleftrightarrow> v = []"
  by (simp add: toLowerCase_def)

lemma visual_after_call:
  "visual (c\<lparr>styleCalls := styleCalls c @ [call]\<rparr>)
     = applyStyleCall c (visual c) call"
proof -
  have "applyStyleCall (c\<lparr>styleCalls := zs\<rparr>) = applyStyleCall c" for zs
  proof (intro ext)
    fix v call show "applyStyleCall (c\<lparr>styleCalls := zs\<rparr>) v call = applyStyleCall c v call"
      by (cases call) simp_all
  qed
  then show ?thesis by (simp add: visual_def)
qed

lemma queryMatches_lowered:
  "queryMatches (toLowerCase v) n
     = (sublist (toLowerCase v) (toLowerCase (fieldText (name n)))
        \<or> sublist (toLowerCase v) (toLowerCase (fieldText (msg n))))"
  by (simp add: queryMatches_def toLowerCase_idem)

lemma visual_onSearchInput:
  "visual (graph (onSearchInput v s))
     = (if v = [] then None
        else Some (filter (queryMatches (toLowerCase v)) (nodes (graph s)), []))"
  by (simp add: onSearchInput_def highlightNodesByQuery_def visual_after_call
        toLowerCase_Nil_iff Let_def)

text \<open>
  Claim C5. The search listener lower-cases the text of the field and calls
  \<open>highlightNodesByQuery\<close>; it has no failing branch. With the spec's reading of that
  call (\<open>visual\<close>): an empty text leaves nothing highlighted, whatever was highlighted or
  locked before; a non-empty text leaves highlighted exactly the nodes whose name or
  message contains it, letter case ignored. The locked selector and the legend rows
  are not touched.
\<close>

theorem search_highlights_matches:
  "visual (graph (onSearchInput [] s)) = None
   \<and> (v \<noteq> [] \<longrightarrow>
        visual (graph (onSearchInput v s))
          = Some (filter (\<lambda>n. sublist (toLowerCase v) (toLowerCase (fieldText (name n)))
                               \<or> sublist (toLowerCase v) (toLowerCase (fieldText (msg n))))
                         (nodes (graph s)), []))
   \<and> currentlyHighlighted (onSearchInput v s) = currentlyHighlighted s
   \<and> legendDiv (onSearchInput v s) = legendDiv s"
proof -
  have "filter (queryMatches (toLowerCase v)) (nodes (graph s))
      = filter (\<lambda>n. sublist (toLowerCase v) (toLowerCase (fieldText (name n)))
                               \<or> sublist (toLowerCase v) (toLowerCase (fieldText (msg n))))
                         (nodes (graph s))"
    by (rule filter_cong) (simp_all add: queryMatches_lowered)
  moreover have "currentlyHighlighted (onSearchInput v s) = currentlyHighlighted s"
    and "legendDiv (onSearchInput v s) = legendDiv s"
    by (simp_all add: onSearchInput_def Let_def)
  ultimately show ?thesis
    by (simp add: visual_onSearchInput)
qed

lemma demo_search_kenobi:
  "filter (\<lambda>n. sublist (toLowerCase ''KENOBI'') (toLowerCase (fieldText (name n)))
                 \<or> sublist (toLowerCase ''KENOBI'') (toLowerCase (fieldText (msg n)))) demoNodes
     = [demoNodes ! 1]"
  by code_simp

lemma demo_search_bob:
  "filter (\<lambda>n. sublist (toLowerCase ''bob'') (toLowerCase (fieldText (name n)))
                 \<or> sublist (toLowerCase ''bob'') (toLowerCase (fieldText (msg n)))) demoNodes
     = [demoNodes ! 1, demoNodes ! 2]"
  by code_simp

theorem search_highlights_matches_witness:
  "visual (graph (onSearchInput []
       (legendRun [Click 0] (snd (onReady (initialState demoGraph)))))) = None
   \<and> visual (graph (onSearchInput ''KENOBI'' (initialState demoGraph))) = Some ([demoNodes ! 1], [])
   \<and> visual (graph (onSearchInput ''bob'' (initialState demoGraph)))
       = Some ([demoNodes ! 1, demoNodes ! 2], [])"
proof -
  have n: "nodes (graph (initialState demoGraph)) = demoNodes"
    by (simp add: initialState_def demoGraph_def)
  have a: "visual (graph (onSearchInput []
       (legendRun [Click 0] (snd (onReady (initialState demoGraph)))))) = None"
    using search_highlights_matches
            [of "legendRun [Click 0] (snd (onReady (initialState demoGraph)))" "[]"]
    by blast
  have "visual (graph (onSearchInput ''KENOBI'' (initialState demoGraph)))
      = Some (filter (\<lambda>n. sublist (toLowerCase ''KENOBI'') (toLowerCase (fieldText (name n)))
                 \<or> sublist (toLowerCase ''KENOBI'') (toLowerCase (fieldText (msg n))))
                (nodes (graph (initialState demoGraph))), [])"
    using search_highlights_matches [of "initialState demoGraph" "''KENOBI''"] by blast
  then have b: "visual (graph (onSearchInput ''KENOBI'' (initialState demoGraph)))
      = Some ([demoNodes ! 1], [])"
    by (simp only: n demo_search_kenobi)
  have "visual (graph (onSearchInput ''bob'' (initialState demoGraph)))
      = Some (filter (\<lambda>n. sublist (toLowerCase ''bob'') (toLowerCase (fieldText (name n)))
                 \<or> sublist (toLowerCase ''bob'') (toLowerCase (fieldText (msg n))))
                (nodes (graph (initialState demoGraph))), [])"
    using search_highlights_matches [of "initialState demoGraph" "''bob''"] by blast
  then have c: "visual (graph (onSearchInput ''bob'' (initialState demoGraph)))
      = Some ([demoNodes ! 1, demoNodes ! 2], [])"
    by (simp only: n demo_search_bob)
  from a b c show ?thesis by blast
qed

end
